theory Spec2Isabelle
  imports Complex_Main "HOL-Library.Multiset"
begin

text \<open>
  A shallow embedding of the local analysis service
  (\<^verbatim>\<open>src/services/dataAnalysisService.ts\<close>): the statistics of a column, the detectors
  of missing data, correlations, trends and seasonality, and \<^verbatim>\<open>analyzeData\<close>, which
  assembles at most five insight strings. The definitions follow the source function by
  function; the properties come after them.
\<close>

section \<open>Numbers\<close>

text \<open>
  A JavaScript number is modelled by its exact real value, or by one of the three special
  values of IEEE-754 arithmetic. The arithmetic below follows IEEE-754 on the special
  values and is exact on finite ones: rounding and overflow to an infinity are not
  modelled, and there is a single zero (it divides like \<open>+0\<close>).
\<close>

datatype jsnum = NaN | PInf | NInf | Fin real

fun isNaN :: "jsnum \<Rightarrow> bool" where
  "isNaN NaN = True"
| "isNaN _ = False"

fun jneg :: "jsnum \<Rightarrow> jsnum" where
  "jneg NaN = NaN"
| "jneg PInf = NInf"
| "jneg NInf = PInf"
| "jneg (Fin a) = Fin (- a)"

fun jadd :: "jsnum \<Rightarrow> jsnum \<Rightarrow> jsnum" where
  "jadd NaN _ = NaN"
| "jadd _ NaN = NaN"
| "jadd PInf NInf = NaN"
| "jadd NInf PInf = NaN"
| "jadd PInf _ = PInf"
| "jadd _ PInf = PInf"
| "jadd NInf _ = NInf"
| "jadd _ NInf = NInf"
| "jadd (Fin a) (Fin b) = Fin (a + b)"

definition jsub :: "jsnum \<Rightarrow> jsnum \<Rightarrow> jsnum" where
  "jsub a b = jadd a (jneg b)"

fun jmul :: "jsnum \<Rightarrow> jsnum \<Rightarrow> jsnum" where
  "jmul NaN _ = NaN"
| "jmul _ NaN = NaN"
| "jmul PInf PInf = PInf"
| "jmul PInf NInf = NInf"
| "jmul NInf PInf = NInf"
| "jmul NInf NInf = PInf"
| "jmul PInf (Fin b) = (if b = 0 then NaN else if 0 < b then PInf else NInf)"
| "jmul NInf (Fin b) = (if b = 0 then NaN else if 0 < b then NInf else PInf)"
| "jmul (Fin a) PInf = (if a = 0 then NaN else if 0 < a then PInf else NInf)"
| "jmul (Fin a) NInf = (if a = 0 then NaN else if 0 < a then NInf else PInf)"
| "jmul (Fin a) (Fin b) = Fin (a * b)"

fun jdiv :: "jsnum \<Rightarrow> jsnum \<Rightarrow> jsnum" where
  "jdiv NaN _ = NaN"
| "jdiv _ NaN = NaN"
| "jdiv PInf PInf = NaN"
| "jdiv PInf NInf = NaN"
| "jdiv NInf PInf = NaN"
| "jdiv NInf NInf = NaN"
| "jdiv PInf (Fin b) = (if 0 \<le> b then PInf else NInf)"
| "jdiv NInf (Fin b) = (if 0 \<le> b then NInf else PInf)"
| "jdiv (Fin a) PInf = Fin 0"
| "jdiv (Fin a) NInf = Fin 0"
| "jdiv (Fin a) (Fin b) =
     (if b = 0 then (if a = 0 then NaN else if 0 < a then PInf else NInf)
      else Fin (a / b))"

text \<open>\<^verbatim>\<open>Math.sqrt\<close>, \<^verbatim>\<open>Math.abs\<close> and \<^verbatim>\<open>Math.pow(v, 2)\<close>.\<close>

fun jsqrt :: "jsnum \<Rightarrow> jsnum" where
  "jsqrt NaN = NaN"
| "jsqrt PInf = PInf"
| "jsqrt NInf = NaN"
| "jsqrt (Fin a) = (if a < 0 then NaN else Fin (sqrt a))"

fun jabs :: "jsnum \<Rightarrow> jsnum" where
  "jabs NaN = NaN"
| "jabs PInf = PInf"
| "jabs NInf = PInf"
| "jabs (Fin a) = Fin \<bar>a\<bar>"

definition pow2 :: "jsnum \<Rightarrow> jsnum" where
  "pow2 v = jmul v v"

text \<open>The comparisons \<^verbatim>\<open>a < b\<close> and \<^verbatim>\<open>a > b\<close>: false as soon as one side is \<open>NaN\<close>.\<close>

fun jlt :: "jsnum \<Rightarrow> jsnum \<Rightarrow> bool" where
  "jlt NaN _ = False"
| "jlt _ NaN = False"
| "jlt PInf _ = False"
| "jlt _ PInf = True"
| "jlt _ NInf = False"
| "jlt NInf _ = True"
| "jlt (Fin a) (Fin b) = (a < b)"

definition jgt :: "jsnum \<Rightarrow> jsnum \<Rightarrow> bool" where
  "jgt a b = jlt b a"

text \<open>\<^verbatim>\<open>a <= b\<close>, used to state properties (the source never evaluates it).\<close>

fun jle :: "jsnum \<Rightarrow> jsnum \<Rightarrow> bool" where
  "jle NaN _ = False"
| "jle _ NaN = False"
| "jle NInf _ = True"
| "jle _ PInf = True"
| "jle PInf _ = False"
| "jle _ NInf = False"
| "jle (Fin a) (Fin b) = (a \<le> b)"

text \<open>\<^verbatim>\<open>Math.max(...xs)\<close>: \<open>-Infinity\<close> on no argument, \<open>NaN\<close> as soon as one argument is.\<close>

definition jmax2 :: "jsnum \<Rightarrow> jsnum \<Rightarrow> jsnum" where
  "jmax2 a b = (if isNaN a \<or> isNaN b then NaN else if jlt a b then b else a)"

definition mathMax :: "jsnum list \<Rightarrow> jsnum" where
  "mathMax xs = foldl jmax2 NInf xs"

text \<open>An array read \<^verbatim>\<open>xs[i]\<close> used as a number: out of range it is \<^verbatim>\<open>undefined\<close>,
  which every arithmetic operation turns into \<open>NaN\<close>.\<close>

definition nthNum :: "jsnum list \<Rightarrow> nat \<Rightarrow> jsnum" where
  "nthNum xs i = (if i < length xs then xs ! i else NaN)"

text \<open>\<^verbatim>\<open>xs.reduce((acc, val) => acc + val, 0)\<close>.\<close>

definition sumNum :: "jsnum list \<Rightarrow> jsnum" where
  "sumNum xs = foldl jadd (Fin 0) xs"

section \<open>Strings and \<^verbatim>\<open>parseFloat\<close>\<close>

text \<open>
  Strings are byte strings, and white space is the ASCII white space.
  \<^verbatim>\<open>parseFloat\<close> skips leading white space, then reads the
  longest prefix that is a decimal literal: an optional sign, then \<^verbatim>\<open>Infinity\<close> or
  digits with an optional fraction and an optional exponent. No such prefix gives
  \<open>NaN\<close>. The value is the exact decimal value (no rounding to a double).
\<close>

definition isWhite :: "char \<Rightarrow> bool" where
  "isWhite c = (c \<in> set [CHR '' '', CHR 0x09, CHR 0x0A, CHR 0x0B, CHR 0x0C, CHR 0x0D])"

definition isDigit :: "char \<Rightarrow> bool" where
  "isDigit c = (c \<in> set ''0123456789'')"

definition digitVal :: "char \<Rightarrow> nat" where
  "digitVal c = of_char c - 48"

definition digitsVal :: "string \<Rightarrow> nat" where
  "digitsVal ds = foldl (\<lambda>acc c. 10 * acc + digitVal c) 0 ds"

definition parseExponent :: "string \<Rightarrow> int" where
  "parseExponent r =
     (case r of
        [] \<Rightarrow> 0
      | e # r1 \<Rightarrow>
          if e = CHR ''e'' \<or> e = CHR ''E'' then
            (case r1 of
               [] \<Rightarrow> 0
             | s # r2 \<Rightarrow>
                 if s = CHR ''-'' then - int (digitsVal (takeWhile isDigit r2))
                 else if s = CHR ''+'' then int (digitsVal (takeWhile isDigit r2))
                 else int (digitsVal (takeWhile isDigit r1)))
          else 0)"

definition scale10 :: "real \<Rightarrow> int \<Rightarrow> real" where
  "scale10 m e = (if 0 \<le> e then m * 10 ^ nat e else m / 10 ^ nat (- e))"

definition parseUnsigned :: "string \<Rightarrow> jsnum" where
  "parseUnsigned u =
     (if take 8 u = ''Infinity'' then PInf
      else
        let ip = takeWhile isDigit u;
            r1 = dropWhile isDigit u;
            fp = (case r1 of [] \<Rightarrow> [] | c # r \<Rightarrow> if c = CHR ''.'' then takeWhile isDigit r else []);
            r2 = (case r1 of [] \<Rightarrow> [] | c # r \<Rightarrow> if c = CHR ''.'' then dropWhile isDigit r else r1)
        in if ip = [] \<and> fp = [] then NaN
           else Fin (scale10 (real (digitsVal (ip @ fp)) / 10 ^ length fp) (parseExponent r2)))"

definition parseFloat :: "string \<Rightarrow> jsnum" where
  "parseFloat s =
     (case dropWhile isWhite s of
        [] \<Rightarrow> NaN
      | c # r \<Rightarrow>
          if c = CHR ''-'' then jneg (parseUnsigned r)
          else if c = CHR ''+'' then parseUnsigned r
          else parseUnsigned (c # r))"

section \<open>The dataset\<close>

text \<open>
  A \<^verbatim>\<open>DataItem\<close> is an object whose values are strings or numbers; the code also tests
  for \<^verbatim>\<open>null\<close>. A row is the list of its properties in the order of
  \<^verbatim>\<open>Object.keys\<close>; a key that is absent reads as \<^verbatim>\<open>undefined\<close>, here \<open>None\<close>.
\<close>

datatype cell = Num jsnum | Str string | Null

type_synonym dataItem = "(string \<times> cell) list"

definition getCell :: "dataItem \<Rightarrow> string \<Rightarrow> cell option" where
  "getCell item key = map_of item key"

definition objectKeys :: "dataItem \<Rightarrow> string list" where
  "objectKeys item = map fst item"

text \<open>
  \<^verbatim>\<open>typeof item[key] === 'number' ? item[key] : parseFloat(item[key] as string)\<close>;
  \<^verbatim>\<open>parseFloat\<close> of \<^verbatim>\<open>undefined\<close> and of \<^verbatim>\<open>null\<close> parses the strings
  \<^verbatim>\<open>"undefined"\<close> and \<^verbatim>\<open>"null"\<close>.
\<close>

definition toNumber :: "string \<Rightarrow> dataItem \<Rightarrow> jsnum" where
  "toNumber key item =
     (case getCell item key of
        Some (Num n) \<Rightarrow> n
      | Some (Str s) \<Rightarrow> parseFloat s
      | Some Null \<Rightarrow> parseFloat ''null''
      | None \<Rightarrow> parseFloat ''undefined'')"

text \<open>The parsed numeric sequence of a column: the values that are not \<open>NaN\<close>, in row order.\<close>

definition numericValuesOf :: "dataItem list \<Rightarrow> string \<Rightarrow> jsnum list" where
  "numericValuesOf data key = filter (\<lambda>v. \<not> isNaN v) (map (toNumber key) data)"

section \<open>Sorting\<close>

text \<open>
  \<^verbatim>\<open>Array.prototype.sort\<close> with a comparator is stable; a comparator result that is
  \<open>NaN\<close> counts as zero. It is modelled as a stable insertion sort: an element moves
  behind another one only when the comparator is positive.
\<close>

fun insertBy :: "('a \<Rightarrow> 'a \<Rightarrow> jsnum) \<Rightarrow> 'a \<Rightarrow> 'a list \<Rightarrow> 'a list" where
  "insertBy cmp x [] = [x]"
| "insertBy cmp x (y # ys) =
     (if jgt (cmp x y) (Fin 0) then y # insertBy cmp x ys else x # y # ys)"

definition sortBy :: "('a \<Rightarrow> 'a \<Rightarrow> jsnum) \<Rightarrow> 'a list \<Rightarrow> 'a list" where
  "sortBy cmp xs = foldr (insertBy cmp) xs []"

definition sortNum :: "jsnum list \<Rightarrow> jsnum list" where
  "sortNum xs = sortBy (\<lambda>a b. jsub a b) xs"

section \<open>calculateStats\<close>

record stats =
  st_count :: nat
  st_min :: jsnum
  st_max :: jsnum
  st_range :: jsnum
  st_sum :: jsnum
  st_mean :: jsnum
  st_median :: jsnum
  st_mode :: "jsnum option"
  st_stdDev :: jsnum
  st_q1 :: jsnum
  st_q3 :: jsnum
  st_iqr :: jsnum
  st_outliers :: "jsnum list"
  st_hasOutliers :: bool

text \<open>
  The mode loop: \<open>frequency\<close> is the object of counts (an absent key reads as 0 through
  \<^verbatim>\<open>|| 0\<close>), \<open>maxFreq\<close> and \<open>mode\<close> are the two variables it updates.
\<close>

record modeState =
  frequency :: "jsnum \<Rightarrow> nat"
  maxFreq :: nat
  mode :: "jsnum option"

definition modeStep :: "modeState \<Rightarrow> jsnum \<Rightarrow> modeState" where
  "modeStep s v =
     (let f = (frequency s)(v := frequency s v + 1)
      in if f v > maxFreq s
         then \<lparr>frequency = f, maxFreq = f v, mode = Some v\<rparr>
         else \<lparr>frequency = f, maxFreq = maxFreq s, mode = mode s\<rparr>)"

definition modeOf :: "jsnum list \<Rightarrow> jsnum option" where
  "modeOf vs = mode (foldl modeStep \<lparr>frequency = (\<lambda>_. 0), maxFreq = 0, mode = None\<rparr> vs)"

definition medianOf :: "jsnum list \<Rightarrow> jsnum" where
  "medianOf vs =
     (let mid = length vs div 2
      in if length vs mod 2 = 0
         then jdiv (jadd (nthNum vs (mid - 1)) (nthNum vs mid)) (Fin 2)
         else nthNum vs mid)"

definition q1Index :: "nat \<Rightarrow> nat" where
  "q1Index n = nat \<lfloor>real n * 0.25\<rfloor>"

definition q3Index :: "nat \<Rightarrow> nat" where
  "q3Index n = nat \<lfloor>real n * 0.75\<rfloor>"

text \<open>The body of \<^verbatim>\<open>calculateStats\<close> after the sort, on the sorted array.\<close>

definition statsOfSorted :: "jsnum list \<Rightarrow> stats" where
  "statsOfSorted vs =
     (let n = length vs;
          sum = sumNum vs;
          mean = jdiv sum (Fin (real n));
          median = medianOf vs;
          squaredDiffs = map (\<lambda>value. pow2 (jsub value mean)) vs;
          variance = jdiv (sumNum squaredDiffs) (Fin (real n));
          stdDev = jsqrt variance;
          min = nthNum vs 0;
          max = nthNum vs (n - 1);
          q1 = nthNum vs (q1Index n);
          q3 = nthNum vs (q3Index n);
          iqr = jsub q3 q1;
          lowerBound = jsub q1 (jmul (Fin 1.5) iqr);
          upperBound = jadd q3 (jmul (Fin 1.5) iqr);
          outliers = filter (\<lambda>v. jlt v lowerBound \<or> jgt v upperBound) vs
      in \<lparr>st_count = n, st_min = min, st_max = max, st_range = jsub max min, st_sum = sum,
          st_mean = mean, st_median = median, st_mode = modeOf vs, st_stdDev = stdDev,
          st_q1 = q1, st_q3 = q3, st_iqr = iqr, st_outliers = outliers,
          st_hasOutliers = (length outliers > 0)\<rparr>)"

definition calculateStats :: "dataItem list \<Rightarrow> string \<Rightarrow> stats option" where
  "calculateStats data key =
     (let numericValues = numericValuesOf data key
      in if length numericValues = 0 then None
         else Some (statsOfSorted (sortNum numericValues)))"

section \<open>findMissingData\<close>

definition trim :: "string \<Rightarrow> string" where
  "trim s = rev (dropWhile isWhite (rev (dropWhile isWhite s)))"

text \<open>
  The test of \<^verbatim>\<open>findMissingData\<close> on one cell: \<^verbatim>\<open>undefined\<close>, \<^verbatim>\<open>null\<close>,
  the empty string, or a string that trims to the empty string.
\<close>

definition isMissing :: "cell option \<Rightarrow> bool" where
  "isMissing c =
     (c = None \<or> c = Some Null \<or> c = Some (Str []) \<or>
      (case c of Some (Str s) \<Rightarrow> trim s = [] | _ \<Rightarrow> False))"

text \<open>\<^verbatim>\<open>Object.keys(data[0] || {})\<close>.\<close>

definition columnsOf :: "dataItem list \<Rightarrow> string list" where
  "columnsOf data = (case data of [] \<Rightarrow> [] | item # _ \<Rightarrow> objectKeys item)"

definition missingCount :: "dataItem list \<Rightarrow> string \<Rightarrow> nat" where
  "missingCount data column = length (filter (\<lambda>item. isMissing (getCell item column)) data)"

text \<open>
  The object \<open>missingData\<close> as the list of its entries, in the order of its keys: the
  columns with at least one missing cell.
\<close>

definition findMissingData :: "dataItem list \<Rightarrow> (string \<times> nat) list" where
  "findMissingData data =
     map (\<lambda>column. (column, missingCount data column))
       (filter (\<lambda>column. missingCount data column > 0) (columnsOf data))"

section \<open>findCorrelations\<close>

record correlation =
  col1 :: string
  col2 :: string
  coefficient :: jsnum

text \<open>
  The accumulation loop over \<open>k < n\<close> of the three sums, and the quotient. The guard
  before it makes the two arrays equally long, so the loop reads the pairs of
  \<open>zip values1 values2\<close>.
\<close>

definition pearsonStep :: "jsnum \<Rightarrow> jsnum \<Rightarrow> jsnum \<times> jsnum \<times> jsnum \<Rightarrow> jsnum \<times> jsnum
    \<Rightarrow> jsnum \<times> jsnum \<times> jsnum" where
  "pearsonStep mean1 mean2 acc p =
     (case acc of (numerator, denom1, denom2) \<Rightarrow>
        let diff1 = jsub (fst p) mean1;
            diff2 = jsub (snd p) mean2
        in (jadd numerator (jmul diff1 diff2),
            jadd denom1 (jmul diff1 diff1),
            jadd denom2 (jmul diff2 diff2)))"

definition pearson :: "jsnum list \<Rightarrow> jsnum list \<Rightarrow> jsnum" where
  "pearson values1 values2 =
     (let n = length values1;
          mean1 = jdiv (sumNum values1) (Fin (real n));
          mean2 = jdiv (sumNum values2) (Fin (real n))
      in case foldl (pearsonStep mean1 mean2) (Fin 0, Fin 0, Fin 0) (zip values1 values2) of
           (numerator, denom1, denom2) \<Rightarrow>
             jdiv numerator (jmul (jsqrt denom1) (jsqrt denom2)))"

text \<open>The pairs \<open>(numericColumns[i], numericColumns[j])\<close> with \<open>i < j\<close>, in loop order.\<close>

fun columnPairs :: "'a list \<Rightarrow> ('a \<times> 'a) list" where
  "columnPairs [] = []"
| "columnPairs (x # xs) = map (Pair x) xs @ columnPairs xs"

definition numericColumnsOf :: "dataItem list \<Rightarrow> string list" where
  "numericColumnsOf data =
     filter (\<lambda>col. case calculateStats data col of None \<Rightarrow> False | Some stats \<Rightarrow> st_count stats > 0)
       (columnsOf data)"

text \<open>The body of the two nested loops for one pair: the entry it pushes, if any.\<close>

definition correlationOfPair :: "dataItem list \<Rightarrow> string \<times> string \<Rightarrow> correlation list" where
  "correlationOfPair data p =
     (let values1 = numericValuesOf data (fst p);
          values2 = numericValuesOf data (snd p)
      in if length values1 = length values2 \<and> length values1 > 1 then
           (let c = pearson values1 values2
            in if \<not> isNaN c \<and> jgt (jabs c) (Fin 0.5)
               then [\<lparr>col1 = fst p, col2 = snd p, coefficient = c\<rparr>] else [])
         else [])"

definition findCorrelations :: "dataItem list \<Rightarrow> correlation list" where
  "findCorrelations data =
     sortBy (\<lambda>a b. jsub (jabs (coefficient b)) (jabs (coefficient a)))
       (concat (map (correlationOfPair data) (columnPairs (numericColumnsOf data))))"

section \<open>detectTrends\<close>

datatype trend =
    Upward jsnum jsnum
  | Downward jsnum jsnum
  | Fluctuating jsnum jsnum

text \<open>The loop over consecutive values, with its two counters \<open>(increases, decreases)\<close>.\<close>

fun countChanges :: "jsnum list \<Rightarrow> nat \<times> nat \<Rightarrow> nat \<times> nat" where
  "countChanges (a # b # rest) (increases, decreases) =
     countChanges (b # rest)
       (if jgt b a then (increases + 1, decreases)
        else if jlt b a then (increases, decreases + 1)
        else (increases, decreases))"
| "countChanges _ acc = acc"

definition detectTrends :: "dataItem list \<Rightarrow> string \<Rightarrow> trend option" where
  "detectTrends data column =
     (if length data < 5 then None
      else
        let values = numericValuesOf data column
        in if length values < 5 then None
           else
             (case countChanges values (0, 0) of (increases, decreases) \<Rightarrow>
                let totalChanges = increases + decreases
                in if totalChanges = 0 then None
                   else
                     let increasePercent =
                           jmul (jdiv (Fin (real increases)) (Fin (real totalChanges))) (Fin 100);
                         decreasePercent =
                           jmul (jdiv (Fin (real decreases)) (Fin (real totalChanges))) (Fin 100)
                     in if jgt increasePercent (Fin 60) then
                          Some (Upward increasePercent
                            (jmul (jsub (jdiv (nthNum values (length values - 1)) (nthNum values 0))
                               (Fin 1)) (Fin 100)))
                        else if jgt decreasePercent (Fin 60) then
                          Some (Downward decreasePercent
                            (jmul (jsub (Fin 1)
                               (jdiv (nthNum values (length values - 1)) (nthNum values 0)))
                               (Fin 100)))
                        else Some (Fluctuating increasePercent decreasePercent)))"

section \<open>detectSeasonality\<close>

datatype direction = Up | Down | Same

fun directionsOf :: "jsnum list \<Rightarrow> direction list" where
  "directionsOf (a # b # rest) =
     (if jgt b a then Up else if jlt b a then Down else Same) # directionsOf (b # rest)"
| "directionsOf _ = []"

text \<open>The innermost loop: does the window at \<open>i\<close> repeat at \<open>i + patternLength\<close>?\<close>

definition isMatch :: "direction list \<Rightarrow> nat \<Rightarrow> nat \<Rightarrow> bool" where
  "isMatch directions patternLength i =
     list_all (\<lambda>j. directions ! (i + j) = directions ! (i + patternLength + j)) [0..<patternLength]"

definition patternMatches :: "direction list \<Rightarrow> nat \<Rightarrow> nat" where
  "patternMatches directions patternLength =
     length (filter (isMatch directions patternLength)
       [0..<length directions + 1 - patternLength * 2])"

definition confidenceOf :: "direction list \<Rightarrow> nat \<Rightarrow> jsnum" where
  "confidenceOf directions patternLength =
     (let patternOccurrences = length directions div patternLength
      in jdiv (Fin (real (patternMatches directions patternLength)))
           (Fin (real patternOccurrences - 1)))"

text \<open>One round of the loop over \<open>patternLength\<close>, on the pair
  \<open>(maxPatternLength, patternConfidence)\<close>.\<close>

definition seasonStep :: "direction list \<Rightarrow> nat \<times> jsnum \<Rightarrow> nat \<Rightarrow> nat \<times> jsnum" where
  "seasonStep directions best patternLength =
     (if length directions < patternLength * 2 then best
      else
        let confidence = confidenceOf directions patternLength
        in if jgt confidence (snd best) then (patternLength, confidence) else best)"

record seasonality =
  patternLength :: nat
  confidence :: jsnum

definition detectSeasonality :: "dataItem list \<Rightarrow> string \<Rightarrow> seasonality option" where
  "detectSeasonality data column =
     (if length data < 10 then None
      else
        let values = numericValuesOf data column
        in if length values < 10 then None
           else
             (case foldl (seasonStep (directionsOf values)) (0, Fin 0) [2, 3, 4] of
                (maxPatternLength, patternConfidence) \<Rightarrow>
                  if jgt patternConfidence (Fin 0.3)
                  then Some \<lparr>patternLength = maxPatternLength, confidence = patternConfidence\<rparr>
                  else None))"

section \<open>Formatting numbers\<close>

text \<open>
  \<^verbatim>\<open>toLocaleString\<close> depends on the host's locale, and \<^verbatim>\<open>toFixed\<close> falls back on
  the shortest decimal representation of the double from \<open>10^21\<close> on: both are taken
  from the host.
\<close>

record host =
  toLocaleString :: "jsnum \<Rightarrow> string"
  numberToString :: "real \<Rightarrow> string"

definition digitChar :: "nat \<Rightarrow> char" where
  "digitChar d = ''0123456789'' ! d"

fun showNat :: "nat \<Rightarrow> string" where
  "showNat n = (if n < 10 then [digitChar n] else showNat (n div 10) @ [digitChar (n mod 10)])"

text \<open>
  \<^verbatim>\<open>x.toFixed(d)\<close>: the integer \<open>n\<close> nearest to \<open>|x| * 10^d\<close> (the larger one on a
  tie), written with at least \<open>d + 1\<close> digits and a point before the last \<open>d\<close>; a
  minus sign when \<open>x < 0\<close>.
\<close>

definition toFixed :: "host \<Rightarrow> nat \<Rightarrow> jsnum \<Rightarrow> string" where
  "toFixed h d x =
     (case x of
        NaN \<Rightarrow> ''NaN''
      | PInf \<Rightarrow> ''Infinity''
      | NInf \<Rightarrow> ''-Infinity''
      | Fin r \<Rightarrow>
          if \<bar>r\<bar> \<ge> 10 ^ 21 then numberToString h r
          else
            let n = nat \<lfloor>\<bar>r\<bar> * 10 ^ d + 1 / 2\<rfloor>;
                m = showNat n;
                m' = replicate (d + 1 - length m) (CHR ''0'') @ m;
                k = length m' - d
            in (if r < 0 then ''-'' else []) @
               (if d = 0 then m' else take k m' @ ''.'' @ drop k m'))"

definition dq :: string where
  "dq = [CHR 0x22]"

section \<open>analyzeData\<close>

datatype error = NoData

text \<open>
  \<open>numericColumns\<close> together with \<open>columnStats\<close>: the columns whose statistics are not
  \<^verbatim>\<open>null\<close>, each with its statistics, in column order.
\<close>

definition numericStats :: "dataItem list \<Rightarrow> (string \<times> stats) list" where
  "numericStats data =
     List.map_filter (\<lambda>column. map_option (Pair column) (calculateStats data column))
       (columnsOf data)"

text \<open>1. Highest values.\<close>

definition extremesInsight :: "host \<Rightarrow> (string \<times> stats) list \<Rightarrow> string list" where
  "extremesInsight h numericColumns =
     (case numericColumns of
        [] \<Rightarrow> []
      | first # _ \<Rightarrow>
          let highestValueColumn =
                foldl (\<lambda>highest column.
                         if jgt (st_max (snd column)) (st_max (snd highest)) then column else highest)
                  first numericColumns;
              stats = snd highestValueColumn;
              percentAboveAvg = jmul (jsub (jdiv (st_max stats) (st_mean stats)) (Fin 1)) (Fin 100);
              zScore = jdiv (jsub (st_max stats) (st_mean stats)) (st_stdDev stats)
          in [concat [''The column '', dq, fst highestValueColumn, dq,
                '' has the highest value at '', toLocaleString h (st_max stats),
                '', with an average of '', toFixed h 2 (st_mean stats),
                ''. This is '', toFixed h 0 percentAboveAvg,
                ''% above the average and represents a z-score of '', toFixed h 2 zScore,
                '', indicating how many standard deviations it is from the mean.'']])"

text \<open>2. Trend of the first numeric column.\<close>

definition trendInsight :: "host \<Rightarrow> dataItem list \<Rightarrow> (string \<times> stats) list \<Rightarrow> string list" where
  "trendInsight h data numericColumns =
     (case numericColumns of
        [] \<Rightarrow> []
      | first # _ \<Rightarrow>
          let trendColumn = fst first
          in (case detectTrends data trendColumn of
               None \<Rightarrow> []
             | Some (Upward consistency rate) \<Rightarrow>
                 [concat [''Trend analysis of '', dq, trendColumn, dq,
                    '' shows a clear upward trend with '', toFixed h 1 consistency,
                    ''% of data points increasing. The overall growth rate is approximately '',
                    toFixed h 1 rate,
                    ''%. To visualize this trend effectively, we recommend using a line chart with a trend line overlay.'']]
             | Some (Downward consistency rate) \<Rightarrow>
                 [concat [''Trend analysis of '', dq, trendColumn, dq,
                    '' reveals a downward trend with '', toFixed h 1 consistency,
                    ''% of data points decreasing. The overall decline rate is approximately '',
                    toFixed h 1 rate,
                    ''%. A line chart with forecasting extensions would help visualize this declining pattern.'']]
             | Some (Fluctuating upPercent downPercent) \<Rightarrow>
                 [concat [''Trend analysis of '', dq, trendColumn, dq,
                    '' indicates a fluctuating pattern with mixed increases ('',
                    toFixed h 1 upPercent, ''%) and decreases ('', toFixed h 1 downPercent,
                    ''%). This suggests cyclical behavior or volatility in your data. Consider using an area chart with moving averages to smooth out the variations.'']]))"

text \<open>Seasonality of the same column.\<close>

definition seasonalityInsight :: "host \<Rightarrow> dataItem list \<Rightarrow> (string \<times> stats) list \<Rightarrow> string list"
  where
  "seasonalityInsight h data numericColumns =
     (case numericColumns of
        [] \<Rightarrow> []
      | first # _ \<Rightarrow>
          let trendColumn = fst first
          in (case detectSeasonality data trendColumn of
               None \<Rightarrow> []
             | Some patternResult \<Rightarrow>
                 [concat [''We've detected a potential cyclical pattern in '', dq, trendColumn, dq,
                    '' with a period of approximately '', showNat (patternLength patternResult),
                    '' data points (confidence: '',
                    toFixed h 0 (jmul (confidence patternResult) (Fin 100)),
                    ''%). This could indicate seasonality or recurring patterns in your data that may be valuable for predictive modeling.'']]))"

text \<open>3. Missing data: one of the two branches always pushes.\<close>

definition joinWith :: "string \<Rightarrow> string list \<Rightarrow> string" where
  "joinWith sep xs = (case xs of [] \<Rightarrow> [] | x # rest \<Rightarrow> x @ concat (map (\<lambda>y. sep @ y) rest))"

definition missingInsight :: "host \<Rightarrow> dataItem list \<Rightarrow> string list" where
  "missingInsight h data =
     (let missingData = findMissingData data
      in if length missingData > 0 then
           (let missingDataDetails =
                  joinWith '', ''
                    (map (\<lambda>(col, missing).
                            concat [dq, col, dq, '' ('', showNat missing, '' rows, '',
                              toFixed h 1
                                (jmul (jdiv (Fin (real missing)) (Fin (real (length data)))) (Fin 100)),
                              ''%)''])
                       missingData);
                impactLevel =
                  (if list_ex (\<lambda>(col, count).
                        jgt (jdiv (Fin (real count)) (Fin (real (length data)))) (Fin 0.2)) missingData
                   then ''significant'' else ''minimal'')
            in [concat [''Data quality analysis: Missing or incomplete data detected in columns: '',
                  missingDataDetails, ''. The impact on analysis is likely '', impactLevel, ''. '',
                  (if impactLevel = ''significant''
                   then ''Consider imputation techniques or removing affected columns for more reliable insights.''
                   else ''For completeness, you might want to address these gaps, though they shouldn't significantly affect results.'')]])
         else
           [concat [''Data quality analysis: Excellent! No missing or incomplete data detected across all '',
              showNat (length (columnsOf data)), '' columns and '', showNat (length data),
              '' rows. This complete dataset will provide the most reliable analysis results and is ideal for advanced statistical methods.'']])"

text \<open>4. Outliers.\<close>

definition outlierInsight :: "host \<Rightarrow> dataItem list \<Rightarrow> (string \<times> stats) list \<Rightarrow> string list" where
  "outlierInsight h data numericColumns =
     (case filter (\<lambda>col. st_hasOutliers (snd col)) numericColumns of
        first # rest \<Rightarrow>
          let significantOutlierColumn =
                foldl (\<lambda>most column.
                         if length (st_outliers (snd column)) > length (st_outliers (snd most))
                         then column else most)
                  first (first # rest);
              stats = snd significantOutlierColumn;
              outlierCount = length (st_outliers stats);
              outlierPercentage =
                jmul (jdiv (Fin (real outlierCount)) (Fin (real (length data)))) (Fin 100);
              maxOutlier = mathMax (map jabs (st_outliers stats));
              outlierMean = jdiv (st_sum stats) (Fin (real (st_count stats)));
              nonOutlierSum = jsub (st_sum stats) (sumNum (st_outliers stats));
              nonOutlierCount = Fin (real (st_count stats) - real outlierCount);
              nonOutlierMean = jdiv nonOutlierSum nonOutlierCount;
              meanImpactPercent =
                jabs (jmul (jdiv (jsub outlierMean nonOutlierMean) nonOutlierMean) (Fin 100))
          in [concat [''Outlier analysis for '', dq, fst significantOutlierColumn, dq,
                '': Detected '', showNat outlierCount, '' outliers ('',
                toFixed h 1 outlierPercentage, ''% of data). The most extreme value is '',
                toLocaleString h maxOutlier, '', which causes a '', toFixed h 1 meanImpactPercent,
                ''% shift in the mean. '',
                (if jgt meanImpactPercent (Fin 10)
                 then ''These outliers substantially impact your statistics and should be addressed before drawing conclusions.''
                 else ''The overall impact on your statistics is relatively small, but addressing them would still improve precision.'')]]
      | [] \<Rightarrow>
          if length numericColumns > 0 then
            [concat [''Outlier analysis: No significant outliers detected in any numerical columns using the 1.5 '',
               [CHR 0xC3, CHR 0x97],
               '' IQR method. Your data appears to be consistently distributed within expected ranges, which is ideal for statistical analysis and indicates strong data quality or effective pre-processing.'']]
          else [])"

text \<open>5. Correlations.\<close>

definition correlationInsight :: "host \<Rightarrow> dataItem list \<Rightarrow> (string \<times> stats) list \<Rightarrow> string list"
  where
  "correlationInsight h data numericColumns =
     (case findCorrelations data of
        strongestCorrelation # _ \<Rightarrow>
          let correlationType =
                (if jgt (coefficient strongestCorrelation) (Fin 0) then ''positive'' else ''negative'');
              absCoef = jabs (coefficient strongestCorrelation);
              r2Value = jmul absCoef absCoef;
              strengthDescription =
                (if jgt absCoef (Fin 0.9) then ''very strong''
                 else if jgt absCoef (Fin 0.7) then ''strong''
                 else if jgt absCoef (Fin 0.5) then ''moderate''
                 else ''weak'');
              vizRecommendation =
                (if correlationType = ''positive''
                 then ''A scatter plot with a linear trend line would effectively visualize this relationship.''
                 else ''A scatter plot with a decreasing trend line would effectively visualize this inverse relationship.'')
          in [concat [''Correlation analysis: Discovered a '', strengthDescription, '' '',
                correlationType, '' correlation (r = '',
                toFixed h 2 (coefficient strongestCorrelation), '', R'', [CHR 0xC2, CHR 0xB2],
                '' = '', toFixed h 2 r2Value, '') between '', dq, col1 strongestCorrelation, dq,
                '' and '', dq, col2 strongestCorrelation, dq,
                ''. This means approximately '', toFixed h 0 (jmul r2Value (Fin 100)),
                ''% of the variation in one variable can be explained by the other. '',
                vizRecommendation]]
      | [] \<Rightarrow>
          if length numericColumns > 1 then
            [''Correlation analysis: No strong linear correlations found between numerical columns. Your variables appear to be independent, which could indicate diverse, unrelated factors in your dataset. Consider exploring non-linear relationships or performing principal component analysis to uncover more complex interactions.'']
          else [])"

text \<open>
  The insights in the order the function pushes them, before the final
  \<^verbatim>\<open>slice(0, 5)\<close>.
\<close>

definition allInsights :: "host \<Rightarrow> dataItem list \<Rightarrow> string list" where
  "allInsights h data =
     (let numericColumns = numericStats data
      in extremesInsight h numericColumns @
         trendInsight h data numericColumns @
         seasonalityInsight h data numericColumns @
         missingInsight h data @
         outlierInsight h data numericColumns @
         correlationInsight h data numericColumns)"

definition analyzeData :: "host \<Rightarrow> dataItem list \<Rightarrow> error + string list" where
  "analyzeData h data =
     (if length data = 0 then Inl NoData
      else Inr (take 5 (allInsights h data)))"

section \<open>The same lines in binary64\<close>

text \<open>
  The sections above compute with exact reals. Where a property depends on the last bit of
  a computed number, the same source lines are embedded again with the operations of
  binary64: each operation is the exact one followed by rounding to nearest, ties to even,
  with gradual underflow below \<open>2^-1022\<close> and overflow to an infinity from \<open>2^1024\<close> on.
  There is still a single zero.
\<close>

definition roundHalfEven :: "real \<Rightarrow> int" where
  "roundHalfEven x =
     (let f = \<lfloor>x\<rfloor>
      in if x - of_int f < 1 / 2 then f
         else if x - of_int f > 1 / 2 then f + 1
         else if even f then f else f + 1)"

text \<open>The exponent of the binade of \<open>x\<close>, not below that of the subnormal numbers.\<close>

definition binade :: "real \<Rightarrow> int" where
  "binade x = max \<lfloor>log 2 \<bar>x\<bar>\<rfloor> (- 1022)"

definition fl64 :: "real \<Rightarrow> jsnum" where
  "fl64 x =
     (if x = 0 then Fin 0
      else
        let u = 2 powi (binade x - 52);
            y = of_int (roundHalfEven (x / u)) * u
        in if \<bar>y\<bar> \<ge> 2 ^ 1024 then (if 0 < x then PInf else NInf) else Fin y)"

fun fl :: "jsnum \<Rightarrow> jsnum" where
  "fl NaN = NaN"
| "fl PInf = PInf"
| "fl NInf = NInf"
| "fl (Fin r) = fl64 r"

definition add64 :: "jsnum \<Rightarrow> jsnum \<Rightarrow> jsnum" where
  "add64 a b = fl (jadd a b)"

definition sub64 :: "jsnum \<Rightarrow> jsnum \<Rightarrow> jsnum" where
  "sub64 a b = fl (jsub a b)"

definition mul64 :: "jsnum \<Rightarrow> jsnum \<Rightarrow> jsnum" where
  "mul64 a b = fl (jmul a b)"

definition div64 :: "jsnum \<Rightarrow> jsnum \<Rightarrow> jsnum" where
  "div64 a b = fl (jdiv a b)"

definition sqrt64 :: "jsnum \<Rightarrow> jsnum" where
  "sqrt64 a = fl (jsqrt a)"

text \<open>
  \<^verbatim>\<open>reduce((sum, val) => sum + val, 0)\<close>, the accumulation loop of
  \<^verbatim>\<open>findCorrelations\<close> and the quotient, the body of the two nested loops for one pair,
  \<^verbatim>\<open>findCorrelations\<close> itself and the median of \<^verbatim>\<open>calculateStats\<close>, in binary64.
\<close>

definition sumNum64 :: "jsnum list \<Rightarrow> jsnum" where
  "sumNum64 xs = foldl add64 (Fin 0) xs"

definition pearsonStep64 :: "jsnum \<Rightarrow> jsnum \<Rightarrow> jsnum \<times> jsnum \<times> jsnum \<Rightarrow> jsnum \<times> jsnum
    \<Rightarrow> jsnum \<times> jsnum \<times> jsnum" where
  "pearsonStep64 mean1 mean2 acc p =
     (case acc of (numerator, denom1, denom2) \<Rightarrow>
        let diff1 = sub64 (fst p) mean1;
            diff2 = sub64 (snd p) mean2
        in (add64 numerator (mul64 diff1 diff2),
            add64 denom1 (mul64 diff1 diff1),
            add64 denom2 (mul64 diff2 diff2)))"

definition pearson64 :: "jsnum list \<Rightarrow> jsnum list \<Rightarrow> jsnum" where
  "pearson64 values1 values2 =
     (let n = length values1;
          mean1 = div64 (sumNum64 values1) (Fin (real n));
          mean2 = div64 (sumNum64 values2) (Fin (real n))
      in case foldl (pearsonStep64 mean1 mean2) (Fin 0, Fin 0, Fin 0) (zip values1 values2) of
           (numerator, denom1, denom2) \<Rightarrow>
             div64 numerator (mul64 (sqrt64 denom1) (sqrt64 denom2)))"

definition correlationOfPair64 :: "dataItem list \<Rightarrow> string \<times> string \<Rightarrow> correlation list" where
  "correlationOfPair64 data p =
     (let values1 = numericValuesOf data (fst p);
          values2 = numericValuesOf data (snd p)
      in if length values1 = length values2 \<and> length values1 > 1 then
           (let c = pearson64 values1 values2
            in if \<not> isNaN c \<and> jgt (jabs c) (Fin 0.5)
               then [\<lparr>col1 = fst p, col2 = snd p, coefficient = c\<rparr>] else [])
         else [])"

definition findCorrelations64 :: "dataItem list \<Rightarrow> correlation list" where
  "findCorrelations64 data =
     sortBy (\<lambda>a b. sub64 (jabs (coefficient b)) (jabs (coefficient a)))
       (concat (map (correlationOfPair64 data) (columnPairs (numericColumnsOf data))))"


section \<open>Example inputs and auxiliary notions\<close>

text \<open>
  A host for evaluating examples: it prints \<open>#\<close> wherever the code asks the locale or
  the shortest-representation printer for a number. The general theorems below hold for
  every host.
\<close>

definition sampleHost :: host where
  "sampleHost = \<lparr>toLocaleString = (\<lambda>x. ''#''), numberToString = (\<lambda>r. ''#'')\<rparr>"

definition startsWith :: "string \<Rightarrow> string \<Rightarrow> bool" where
  "startsWith p s = (take (length p) s = p)"

text \<open>Ten rows whose two columns alternate: \<open>x\<close> = 1, 2, 1, 2, ... and \<open>y\<close> = 2, 4, 2, 4, ...\<close>

definition cyclic :: "dataItem list" where
  "cyclic =
     [[(''x'', Num (Fin 1)), (''y'', Num (Fin 2))], [(''x'', Num (Fin 2)), (''y'', Num (Fin 4))],
      [(''x'', Num (Fin 1)), (''y'', Num (Fin 2))], [(''x'', Num (Fin 2)), (''y'', Num (Fin 4))],
      [(''x'', Num (Fin 1)), (''y'', Num (Fin 2))], [(''x'', Num (Fin 2)), (''y'', Num (Fin 4))],
      [(''x'', Num (Fin 1)), (''y'', Num (Fin 2))], [(''x'', Num (Fin 2)), (''y'', Num (Fin 4))],
      [(''x'', Num (Fin 1)), (''y'', Num (Fin 2))], [(''x'', Num (Fin 2)), (''y'', Num (Fin 4))]]"

text \<open>A column whose first cell is blank and whose second cell is the text \<open>5\<close>.\<close>

definition blankFirst :: "dataItem list" where
  "blankFirst = [[(''x'', Str '''')], [(''x'', Str ''5'')]]"

text \<open>The five-row scenario with \<open>x\<close> = 1..5 and \<open>y = 2 x\<close>.\<close>

definition scenario :: "dataItem list" where
  "scenario =
     [[(''x'', Num (Fin 1)), (''y'', Num (Fin 2))], [(''x'', Num (Fin 2)), (''y'', Num (Fin 4))],
      [(''x'', Num (Fin 3)), (''y'', Num (Fin 6))], [(''x'', Num (Fin 4)), (''y'', Num (Fin 8))],
      [(''x'', Num (Fin 5)), (''y'', Num (Fin 10))]]"


text \<open>Five rows in which 1 and 3 both occur twice.\<close>

definition tied :: "dataItem list" where
  "tied = [[(''x'', Str ''3'')], [(''x'', Str ''1'')], [(''x'', Str ''3'')], [(''x'', Str ''1'')],
           [(''x'', Str ''2'')]]"

text \<open>
  The invariant of the mode loop after the prefix \<open>p\<close> of an ascending array: the
  counts are those of \<open>p\<close>, \<open>maxFreq\<close> bounds them, and \<open>mode\<close> is the least value
  that attains \<open>maxFreq\<close>.
\<close>

definition modeInv :: "jsnum list \<Rightarrow> modeState \<Rightarrow> bool" where
  "modeInv p s \<longleftrightarrow>
     frequency s = count_list p \<and>
     (\<forall>v. count_list p v \<le> maxFreq s) \<and>
     (p = [] \<longrightarrow> maxFreq s = 0 \<and> mode s = None) \<and>
     (p \<noteq> [] \<longrightarrow>
        (\<exists>m. mode s = Some m \<and> m \<in> set p \<and> count_list p m = maxFreq s \<and>
             (\<forall>v \<in> set p. count_list p v = maxFreq s \<longrightarrow> jle m v)))"

text \<open>A number that is neither \<open>NaN\<close> nor an infinity.\<close>

fun finiteNum :: "jsnum \<Rightarrow> bool" where
  "finiteNum (Fin _) = True"
| "finiteNum _ = False"

text \<open>
  Three rows: column \<open>a\<close> is numeric in rows 0 and 1 and blank in row 2, column \<open>b\<close> is
  blank in row 0 and numeric in rows 1 and 2.
\<close>

definition misaligned :: "dataItem list" where
  "misaligned =
     [[(''a'', Str ''1''), (''b'', Str '''')],
      [(''a'', Str ''2''), (''b'', Str ''2'')],
      [(''a'', Str ''''), (''b'', Str ''4'')]]"

text \<open>Five rows 0, 1, 2, 3, 4, and a single row 0.\<close>

definition zeroFirst :: "dataItem list" where
  "zeroFirst =
     [[(''x'', Str ''0'')], [(''x'', Str ''1'')], [(''x'', Str ''2'')], [(''x'', Str ''3'')],
      [(''x'', Str ''4'')]]"

definition zeroOnly :: "dataItem list" where
  "zeroOnly = [[(''x'', Str ''0'')]]"

text \<open>Two rows with the numbers 1 and 4 in both columns.\<close>

definition twoPoints :: "dataItem list" where
  "twoPoints =
     [[(''a'', Num (Fin 1)), (''b'', Num (Fin 1))], [(''a'', Num (Fin 4)), (''b'', Num (Fin 4))]]"



section \<open>The insight synthesizer: order, cap and failure\<close>

lemma length_extremesInsight: "length (extremesInsight h ns) \<le> 1"
  by (simp add: extremesInsight_def Let_def split: list.splits)

lemma length_trendInsight: "length (trendInsight h data ns) \<le> 1"
  by (simp add: trendInsight_def Let_def split: list.splits option.splits trend.splits)

lemma length_seasonalityInsight: "length (seasonalityInsight h data ns) \<le> 1"
  by (simp add: seasonalityInsight_def Let_def split: list.splits option.splits)

lemma length_missingInsight: "length (missingInsight h data) = 1"
  by (simp add: missingInsight_def Let_def)

lemma length_outlierInsight: "length (outlierInsight h data ns) \<le> 1"
  by (simp add: outlierInsight_def Let_def split: list.splits)

lemma length_correlationInsight: "length (correlationInsight h data ns) \<le> 1"
  by (simp add: correlationInsight_def Let_def split: list.splits)

lemma starts_extremesInsight:
  "x \<in> set (extremesInsight h ns) \<Longrightarrow> startsWith ''The column '' x"
  by (auto simp add: extremesInsight_def Let_def startsWith_def split: list.splits)

lemma starts_trendInsight:
  assumes "x \<in> set (trendInsight h data ns)"
  shows "startsWith ''Trend analysis of '' x"
proof (cases ns)
  case Nil
  with assms show ?thesis by (simp add: trendInsight_def)
next
  case (Cons first rest)
  show ?thesis
  proof (cases "detectTrends data (fst first)")
    case None
    with assms Cons show ?thesis by (simp add: trendInsight_def)
  next
    case (Some t)
    with assms Cons show ?thesis
      by (cases t) (simp_all add: trendInsight_def startsWith_def)
  qed
qed

lemma starts_seasonalityInsight:
  "x \<in> set (seasonalityInsight h data ns) \<Longrightarrow> startsWith ''We've detected '' x"
  by (auto simp add: seasonalityInsight_def Let_def startsWith_def split: list.splits option.splits)

lemma starts_missingInsight:
  "x \<in> set (missingInsight h data) \<Longrightarrow> startsWith ''Data quality analysis: '' x"
  by (auto simp add: missingInsight_def Let_def startsWith_def split: if_splits)

lemma starts_outlierInsight:
  "x \<in> set (outlierInsight h data ns) \<Longrightarrow> startsWith ''Outlier analysis'' x"
  by (auto simp add: outlierInsight_def Let_def startsWith_def split: list.splits if_splits)

lemma starts_correlationInsight:
  "x \<in> set (correlationInsight h data ns) \<Longrightarrow> startsWith ''Correlation analysis: '' x"
  by (auto simp add: correlationInsight_def Let_def startsWith_def split: list.splits if_splits)

text \<open>
  Claim C1. For every non-empty dataset, \<open>analyzeData\<close> returns the first five of the
  insights generated in the fixed order extremes, trend, seasonality, missing data,
  outliers, correlation; each category contributes at most one insight (so trend and
  seasonality together at most two), each insight opens with the words of its category,
  and at most five strings are returned.
\<close>

theorem analyzeData_priority_order:
  assumes "data \<noteq> []"
  shows "analyzeData h data =
           Inr (take 5 (extremesInsight h (numericStats data) @
                        trendInsight h data (numericStats data) @
                        seasonalityInsight h data (numericStats data) @
                        missingInsight h data @
                        outlierInsight h data (numericStats data) @
                        correlationInsight h data (numericStats data)))
         \<and> length (extremesInsight h (numericStats data)) \<le> 1
         \<and> length (trendInsight h data (numericStats data)) \<le> 1
         \<and> length (seasonalityInsight h data (numericStats data)) \<le> 1
         \<and> length (missingInsight h data) \<le> 1
         \<and> length (outlierInsight h data (numericStats data)) \<le> 1
         \<and> length (correlationInsight h data (numericStats data)) \<le> 1
         \<and> list_all (startsWith ''The column '') (extremesInsight h (numericStats data))
         \<and> list_all (startsWith ''Trend analysis of '') (trendInsight h data (numericStats data))
         \<and> list_all (startsWith ''We've detected '') (seasonalityInsight h data (numericStats data))
         \<and> list_all (startsWith ''Data quality analysis: '') (missingInsight h data)
         \<and> list_all (startsWith ''Outlier analysis'') (outlierInsight h data (numericStats data))
         \<and> list_all (startsWith ''Correlation analysis: '')
               (correlationInsight h data (numericStats data))
         \<and> (\<exists>ss. analyzeData h data = Inr ss \<and> length ss \<le> 5)"
proof -
  have "analyzeData h data = Inr (take 5 (allInsights h data))"
    using assms by (simp add: analyzeData_def)
  then have eq: "analyzeData h data =
           Inr (take 5 (extremesInsight h (numericStats data) @
                        trendInsight h data (numericStats data) @
                        seasonalityInsight h data (numericStats data) @
                        missingInsight h data @
                        outlierInsight h data (numericStats data) @
                        correlationInsight h data (numericStats data)))"
    by (simp only: allInsights_def Let_def)
  have len: "\<exists>ss. analyzeData h data = Inr ss \<and> length ss \<le> 5"
    unfolding eq by (simp del: take_append)
  show ?thesis
    using eq len length_extremesInsight length_trendInsight length_seasonalityInsight
      length_outlierInsight length_correlationInsight
    by (simp add: length_missingInsight list_all_iff
        starts_extremesInsight starts_trendInsight starts_seasonalityInsight
        starts_missingInsight starts_outlierInsight starts_correlationInsight
        del: take_append)
qed

lemma numericStats_no_columns: "numericStats [[]] = []"
  by (simp add: numericStats_def columnsOf_def objectKeys_def List.map_filter_simps)

lemma findCorrelations_no_columns: "findCorrelations [[]] = []"
  by (simp add: findCorrelations_def numericColumnsOf_def columnsOf_def objectKeys_def sortBy_def)

lemma findMissingData_no_columns: "findMissingData [[]] = []"
  by (simp add: findMissingData_def columnsOf_def objectKeys_def)

text \<open>
  Claim C2, as stated, fails: a dataset of one row without any column is not empty, has
  zero columns, and \<open>analyzeData\<close> does not raise on it; it returns the one insight
  that no data is missing.
\<close>

theorem analyzeData_no_columns_counterexample:
  "[[]] \<noteq> ([] :: dataItem list) \<and> columnsOf [[]] = [] \<and>
   analyzeData sampleHost [[]] =
     Inr [''Data quality analysis: Excellent! No missing or incomplete data detected across all 0 columns and 1 rows. This complete dataset will provide the most reliable analysis results and is ideal for advanced statistical methods.'']"
  by (simp add: analyzeData_def allInsights_def numericStats_no_columns
      findCorrelations_no_columns extremesInsight_def trendInsight_def seasonalityInsight_def
      outlierInsight_def correlationInsight_def missingInsight_def findMissingData_no_columns
      columnsOf_def objectKeys_def digitChar_def)

lemma mem_take_append: "length pre < n \<Longrightarrow> m \<in> set (take n (pre @ m # post))"
  by (simp add: take_Cons')

text \<open>
  Claim C2, amended. \<open>analyzeData\<close> raises exactly when the dataset has no rows. On
  every dataset with at least one row, with or without columns, it returns between one
  and five strings, and the missing-data insight is among them.
\<close>

theorem analyzeData_raises_iff_no_rows:
  "(analyzeData h data = Inl NoData \<longleftrightarrow> data = []) \<and>
   (data \<noteq> [] \<longrightarrow>
      (\<exists>ss. analyzeData h data = Inr ss \<and> 1 \<le> length ss \<and> length ss \<le> 5 \<and>
            set (missingInsight h data) \<subseteq> set ss))"
proof (cases "data = []")
  case True
  then show ?thesis by (simp add: analyzeData_def)
next
  case False
  let ?pre = "extremesInsight h (numericStats data) @ trendInsight h data (numericStats data) @
              seasonalityInsight h data (numericStats data)"
  let ?post = "outlierInsight h data (numericStats data) @
               correlationInsight h data (numericStats data)"
  obtain m where m: "missingInsight h data = [m]"
    using length_missingInsight [of h data] by (cases "missingInsight h data") auto
  have all: "allInsights h data = ?pre @ m # ?post"
    by (simp add: allInsights_def Let_def m)
  have pre: "length ?pre \<le> 3"
    using length_extremesInsight [of h "numericStats data"]
      length_trendInsight [of h data "numericStats data"]
      length_seasonalityInsight [of h data "numericStats data"]
    by simp
  then have "m \<in> set (take 5 (allInsights h data))"
    unfolding all by (intro mem_take_append) simp
  moreover have "1 \<le> length (take 5 (allInsights h data))"
    unfolding all by (simp del: take_append)
  ultimately show ?thesis
    using False by (simp add: analyzeData_def m)
qed

theorem analyzeData_raises_iff_no_rows_witness:
  "analyzeData sampleHost [] = Inl NoData \<and>
   (\<exists>ss. analyzeData sampleHost [[(''x'', Str ''1'')]] = Inr ss \<and> 1 \<le> length ss \<and> length ss \<le> 5
      \<and> set (missingInsight sampleHost [[(''x'', Str ''1'')]]) \<subseteq> set ss)"
  using analyzeData_raises_iff_no_rows [of sampleHost "[]"]
    analyzeData_raises_iff_no_rows [of sampleHost "[[(''x'', Str ''1'')]]"]
  by simp

section \<open>Seasonality: the smallest best period\<close>

lemma len_cyclic: "length cyclic = 10"
  by (simp add: cyclic_def)

lemma nv_x:
  "numericValuesOf cyclic ''x'' =
     [Fin 1, Fin 2, Fin 1, Fin 2, Fin 1, Fin 2, Fin 1, Fin 2, Fin 1, Fin 2]"
  by (simp add: cyclic_def numericValuesOf_def toNumber_def getCell_def)

lemma dirs_x:
  "directionsOf [Fin 1, Fin 2, Fin 1, Fin 2, Fin 1, Fin 2, Fin 1, Fin 2, Fin 1, Fin 2] =
     [Up, Down, Up, Down, Up, Down, Up, Down, Up]"
  by (simp add: jgt_def)

lemma dirs_cyclic:
  "directionsOf (numericValuesOf cyclic ''x'') = [Up, Down, Up, Down, Up, Down, Up, Down, Up]"
  by (simp only: nv_x dirs_x)

lemma conf2: "confidenceOf [Up, Down, Up, Down, Up, Down, Up, Down, Up] 2 = Fin 2"
  by (simp add: confidenceOf_def patternMatches_def isMatch_def upt_rec)

lemma conf3: "confidenceOf [Up, Down, Up, Down, Up, Down, Up, Down, Up] 3 = Fin 0"
  by (simp add: confidenceOf_def patternMatches_def isMatch_def upt_rec)

lemma conf4: "confidenceOf [Up, Down, Up, Down, Up, Down, Up, Down, Up] 4 = Fin 2"
  by (simp add: confidenceOf_def patternMatches_def isMatch_def upt_rec)

lemma seas_x: "detectSeasonality cyclic ''x'' = Some \<lparr>patternLength = 2, confidence = Fin 2\<rparr>"
  by (simp add: detectSeasonality_def nv_x dirs_x seasonStep_def conf2 conf3 conf4 jgt_def
      len_cyclic)

lemma trend_x: "detectTrends cyclic ''x'' = Some (Fluctuating (Fin (500 / 9)) (Fin (400 / 9)))"
  by (simp add: detectTrends_def nv_x jgt_def len_cyclic)

lemma length_directionsOf: "length (directionsOf vs) = length vs - 1"
  by (induction vs rule: directionsOf.induct) simp_all

lemma confidenceOf_Fin:
  assumes "2 * p \<le> length dirs" and "0 < p"
  shows "confidenceOf dirs p =
           Fin (real (patternMatches dirs p) / (real (length dirs div p) - 1))
         \<and> 0 \<le> real (patternMatches dirs p) / (real (length dirs div p) - 1)"
proof -
  have "2 \<le> length dirs div p"
    using assms by (metis div_le_mono nonzero_mult_div_cancel_right less_numeral_extra(3))
  then have "1 \<le> real (length dirs div p) - 1" by linarith
  then show ?thesis
    by (simp add: confidenceOf_def Let_def)
qed

text \<open>
  Claim C10. When \<open>detectSeasonality\<close> reports a pattern, its period is one of 2, 3, 4,
  its confidence is that of this period and exceeds 0.3, no candidate period has a
  greater confidence, and every candidate period with the same confidence is at least
  as long: among the periods of maximal confidence the smallest one is returned.
\<close>

theorem detectSeasonality_smallest_best_period:
  assumes "detectSeasonality data column = Some r"
  shows "patternLength r \<in> {2, 3, 4} \<and>
         confidence r = confidenceOf (directionsOf (numericValuesOf data column)) (patternLength r) \<and>
         jgt (confidence r) (Fin 0.3) \<and>
         (\<forall>p \<in> {2, 3, 4}.
            jle (confidenceOf (directionsOf (numericValuesOf data column)) p) (confidence r) \<and>
            (confidenceOf (directionsOf (numericValuesOf data column)) p = confidence r
               \<longrightarrow> patternLength r \<le> p))"
proof -
  define dirs where "dirs = directionsOf (numericValuesOf data column)"
  from assms have len: "10 \<le> length (numericValuesOf data column)"
    by (auto simp add: detectSeasonality_def Let_def split: if_splits)
  then have ld: "9 \<le> length dirs"
    by (simp add: dirs_def length_directionsOf)
  obtain c2 where c2: "confidenceOf dirs 2 = Fin c2" "0 \<le> c2"
    using confidenceOf_Fin [of 2 dirs] ld by auto
  obtain c3 where c3: "confidenceOf dirs 3 = Fin c3" "0 \<le> c3"
    using confidenceOf_Fin [of 3 dirs] ld by auto
  obtain c4 where c4: "confidenceOf dirs 4 = Fin c4" "0 \<le> c4"
    using confidenceOf_Fin [of 4 dirs] ld by auto
  from assms len ld have
    "(case foldl (seasonStep dirs) (0, Fin 0) [2, 3, 4] of
        (maxPatternLength, patternConfidence) \<Rightarrow>
          if jgt patternConfidence (Fin 0.3)
          then Some \<lparr>patternLength = maxPatternLength, confidence = patternConfidence\<rparr>
          else None) = Some r"
    by (auto simp add: detectSeasonality_def Let_def dirs_def split: if_splits)
  then have "patternLength r \<in> {2, 3, 4} \<and>
         confidence r = confidenceOf dirs (patternLength r) \<and>
         jgt (confidence r) (Fin 0.3) \<and>
         (\<forall>p \<in> {2, 3, 4}.
            jle (confidenceOf dirs p) (confidence r) \<and>
            (confidenceOf dirs p = confidence r \<longrightarrow> patternLength r \<le> p))"
    using ld c2 c3 c4
    by (auto simp add: seasonStep_def Let_def jgt_def split: if_splits)
  then show ?thesis unfolding dirs_def .
qed

text \<open>
  On the alternating column the periods 2 and 4 tie at the maximal confidence 2 (period 3
  has confidence 0), and the period reported is 2.
\<close>

theorem detectSeasonality_smallest_best_period_witness:
  "detectSeasonality cyclic ''x'' = Some \<lparr>patternLength = 2, confidence = Fin 2\<rparr> \<and>
   confidenceOf (directionsOf (numericValuesOf cyclic ''x'')) 2 = Fin 2 \<and>
   confidenceOf (directionsOf (numericValuesOf cyclic ''x'')) 3 = Fin 0 \<and>
   confidenceOf (directionsOf (numericValuesOf cyclic ''x'')) 4 = Fin 2 \<and>
   patternLength \<lparr>patternLength = 2, confidence = Fin 2\<rparr> \<le> 4"
  using detectSeasonality_smallest_best_period [OF seas_x]
  by (simp add: dirs_cyclic conf2 conf3 conf4 seas_x)

section \<open>The cap at work\<close>

lemma length_extremesInsight_numeric: "ns \<noteq> [] \<Longrightarrow> length (extremesInsight h ns) = 1"
  by (cases ns) (simp_all add: extremesInsight_def Let_def)

lemma length_outlierInsight_numeric: "ns \<noteq> [] \<Longrightarrow> length (outlierInsight h data ns) = 1"
  by (simp add: outlierInsight_def Let_def split: list.splits)

lemma length_correlationInsight_numeric:
  "1 < length ns \<Longrightarrow> length (correlationInsight h data ns) = 1"
  by (simp add: correlationInsight_def Let_def split: list.splits)

lemma columnsOf_cyclic: "columnsOf cyclic = [''x'', ''y'']"
  by (simp add: cyclic_def columnsOf_def objectKeys_def)

lemma nv_y:
  "numericValuesOf cyclic ''y'' =
     [Fin 2, Fin 4, Fin 2, Fin 4, Fin 2, Fin 4, Fin 2, Fin 4, Fin 2, Fin 4]"
  by (simp add: cyclic_def numericValuesOf_def toNumber_def getCell_def)

lemma numericStats_cyclic:
  "\<exists>sx sy. numericStats cyclic = [(''x'', sx), (''y'', sy)]"
  by (simp add: numericStats_def columnsOf_cyclic List.map_filter_simps calculateStats_def
      nv_x nv_y)

text \<open>
  On the alternating dataset all six categories produce an insight; the five returned are
  the first five, and the correlation insight is the one dropped.
\<close>

theorem analyzeData_priority_order_witness:
  "cyclic \<noteq> [] \<and>
   length (extremesInsight sampleHost (numericStats cyclic) @
           trendInsight sampleHost cyclic (numericStats cyclic) @
           seasonalityInsight sampleHost cyclic (numericStats cyclic) @
           missingInsight sampleHost cyclic @
           outlierInsight sampleHost cyclic (numericStats cyclic)) = 5 \<and>
   length (correlationInsight sampleHost cyclic (numericStats cyclic)) = 1 \<and>
   analyzeData sampleHost cyclic =
     Inr (extremesInsight sampleHost (numericStats cyclic) @
          trendInsight sampleHost cyclic (numericStats cyclic) @
          seasonalityInsight sampleHost cyclic (numericStats cyclic) @
          missingInsight sampleHost cyclic @
          outlierInsight sampleHost cyclic (numericStats cyclic))"
proof -
  have ne: "cyclic \<noteq> []" using len_cyclic by auto
  obtain sx sy where ns: "numericStats cyclic = [(''x'', sx), (''y'', sy)]"
    using numericStats_cyclic by blast
  have e: "length (extremesInsight sampleHost (numericStats cyclic)) = 1"
    by (rule length_extremesInsight_numeric) (simp add: ns)
  have t: "length (trendInsight sampleHost cyclic (numericStats cyclic)) = 1"
    by (simp add: trendInsight_def ns trend_x)
  have s: "length (seasonalityInsight sampleHost cyclic (numericStats cyclic)) = 1"
    by (simp add: seasonalityInsight_def ns seas_x)
  have m: "length (missingInsight sampleHost cyclic) = 1"
    by (rule length_missingInsight)
  have out: "length (outlierInsight sampleHost cyclic (numericStats cyclic)) = 1"
    by (rule length_outlierInsight_numeric) (simp add: ns)
  have c: "length (correlationInsight sampleHost cyclic (numericStats cyclic)) = 1"
    by (rule length_correlationInsight_numeric) (simp add: ns)
  show ?thesis
    using analyzeData_priority_order [OF ne, of sampleHost] ne e t s m out c
    by simp
qed

section \<open>Sorting and the classification of columns\<close>

lemma length_insertBy: "length (insertBy cmp x xs) = Suc (length xs)"
  by (induction xs) simp_all

lemma length_sortBy: "length (sortBy cmp xs) = length xs"
  by (induction xs) (simp_all add: sortBy_def length_insertBy)

lemma mset_insertBy: "mset (insertBy cmp x xs) = add_mset x (mset xs)"
  by (induction xs) simp_all

lemma mset_sortBy: "mset (sortBy cmp xs) = mset xs"
  by (induction xs) (simp_all add: sortBy_def mset_insertBy)

lemma set_sortBy: "set (sortBy cmp xs) = set xs"
  using mset_sortBy [of cmp xs] by (metis set_mset_mset)

lemma calculateStats_None_iff:
  "calculateStats data key = None \<longleftrightarrow> numericValuesOf data key = []"
  by (simp add: calculateStats_def Let_def)

lemma numericValuesOf_Nil_iff:
  "numericValuesOf data key = [] \<longleftrightarrow> \<not> list_ex (\<lambda>item. \<not> isNaN (toNumber key item)) data"
  by (auto simp add: numericValuesOf_def filter_empty_conv list_ex_iff)

lemma st_count_calculateStats:
  "calculateStats data key = Some s \<Longrightarrow> st_count s = length (numericValuesOf data key)"
  by (auto simp add: calculateStats_def statsOfSorted_def Let_def sortNum_def length_sortBy
      split: if_splits)

lemma map_fst_map_filter_Pair:
  "map fst (List.map_filter (\<lambda>c. map_option (Pair c) (f c)) cs) = filter (\<lambda>c. f c \<noteq> None) cs"
  by (induction cs) (auto simp add: List.map_filter_simps split: option.splits)

lemma parseFloat_blank: "parseFloat [] = NaN"
  by (simp add: parseFloat_def)

lemma parseFloat_5: "parseFloat ''5'' = Fin 5"
  by (simp add: parseFloat_def parseUnsigned_def isWhite_def isDigit_def digitsVal_def
      digitVal_def parseExponent_def scale10_def)

text \<open>
  Claim C4, as stated, fails: the first row's value of column \<open>x\<close> is the empty string,
  which does not parse, and yet the column is classified as numeric, by \<open>analyzeData\<close>
  and by \<open>findCorrelations\<close> alike, because a later row parses.
\<close>

theorem numeric_classification_counterexample:
  "getCell (hd blankFirst) ''x'' = Some (Str '''') \<and>
   toNumber ''x'' (hd blankFirst) = NaN \<and>
   map fst (numericStats blankFirst) = [''x''] \<and>
   numericColumnsOf blankFirst = [''x'']"
proof -
  have nv: "numericValuesOf blankFirst ''x'' = [Fin 5]"
    by (simp add: blankFirst_def numericValuesOf_def toNumber_def getCell_def parseFloat_blank
        parseFloat_5)
  have cols: "columnsOf blankFirst = [''x'']"
    by (simp add: blankFirst_def columnsOf_def objectKeys_def)
  have "calculateStats blankFirst ''x'' \<noteq> None"
    by (simp add: calculateStats_None_iff nv)
  then obtain s where s: "calculateStats blankFirst ''x'' = Some s" by blast
  have "st_count s = 1"
    using st_count_calculateStats [OF s] by (simp add: nv)
  then have n: "map fst (numericStats blankFirst) = [''x''] \<and>
      numericColumnsOf blankFirst = [''x'']"
    by (simp add: numericStats_def numericColumnsOf_def cols s List.map_filter_simps)
  have "getCell (hd blankFirst) ''x'' = Some (Str '''') \<and> toNumber ''x'' (hd blankFirst) = NaN"
    by (simp add: blankFirst_def getCell_def toNumber_def parseFloat_blank)
  with n show ?thesis by blast
qed

text \<open>
  Claim C4, amended. A column is classified as numeric exactly when the value of at least
  one row, the first or any other, is a number other than \<open>NaN\<close> or parses to one.
\<close>

theorem numeric_classification:
  "map fst (numericStats data) =
     filter (\<lambda>column. list_ex (\<lambda>item. \<not> isNaN (toNumber column item)) data) (columnsOf data)
   \<and> numericColumnsOf data =
     filter (\<lambda>column. list_ex (\<lambda>item. \<not> isNaN (toNumber column item)) data) (columnsOf data)"
proof
  show "map fst (numericStats data) =
     filter (\<lambda>column. list_ex (\<lambda>item. \<not> isNaN (toNumber column item)) data) (columnsOf data)"
    by (simp add: numericStats_def map_fst_map_filter_Pair calculateStats_None_iff
        numericValuesOf_Nil_iff)
  have "(case calculateStats data col of None \<Rightarrow> False | Some stats \<Rightarrow> st_count stats > 0)
        = list_ex (\<lambda>item. \<not> isNaN (toNumber col item)) data" for col
  proof (cases "calculateStats data col")
    case None
    then have "numericValuesOf data col = []"
      using calculateStats_None_iff by blast
    then have "\<not> list_ex (\<lambda>item. \<not> isNaN (toNumber col item)) data"
      using numericValuesOf_Nil_iff by blast
    then show ?thesis by (simp add: None)
  next
    case (Some s)
    then have "numericValuesOf data col \<noteq> []"
      using calculateStats_None_iff [of data col] by simp
    then show ?thesis
      using Some st_count_calculateStats [OF Some] numericValuesOf_Nil_iff [of data col] by simp
  qed
  then show "numericColumnsOf data =
     filter (\<lambda>column. list_ex (\<lambda>item. \<not> isNaN (toNumber column item)) data) (columnsOf data)"
    by (simp add: numericColumnsOf_def)
qed


theorem numeric_classification_witness:
  "map fst (numericStats blankFirst) =
     filter (\<lambda>column. list_ex (\<lambda>item. \<not> isNaN (toNumber column item)) blankFirst)
       (columnsOf blankFirst)
   \<and> filter (\<lambda>column. list_ex (\<lambda>item. \<not> isNaN (toNumber column item)) blankFirst)
       (columnsOf blankFirst) = [''x'']"
proof -
  have "list_ex (\<lambda>item. \<not> isNaN (toNumber ''x'' item)) blankFirst"
    by (simp add: blankFirst_def toNumber_def getCell_def parseFloat_5)
  moreover have "columnsOf blankFirst = [''x'']"
    by (simp add: blankFirst_def columnsOf_def objectKeys_def)
  ultimately show ?thesis
    using numeric_classification [of blankFirst] by simp
qed

section \<open>The trend detector\<close>

lemma jlt_asym: "jlt a b \<Longrightarrow> \<not> jlt b a"
  by (cases a; cases b) auto

lemma countChanges_count:
  "countChanges vs (i, d) =
     (i + length (filter (\<lambda>(a, b). jlt a b) (zip vs (tl vs))),
      d + length (filter (\<lambda>(a, b). jlt b a) (zip vs (tl vs))))"
  by (induction vs "(i, d)" arbitrary: i d rule: countChanges.induct)
    (auto simp add: jgt_def dest: jlt_asym)

lemma nthNum_hd: "vs \<noteq> [] \<Longrightarrow> nthNum vs 0 = hd vs"
  by (simp add: nthNum_def hd_conv_nth)

lemma nthNum_last: "vs \<noteq> [] \<Longrightarrow> nthNum vs (length vs - 1) = last vs"
  by (simp add: nthNum_def last_conv_nth)

lemma nv_scenario_x: "numericValuesOf scenario ''x'' = [Fin 1, Fin 2, Fin 3, Fin 4, Fin 5]"
  by (simp add: scenario_def numericValuesOf_def toNumber_def getCell_def)

lemma len_scenario: "length scenario = 5"
  by (simp add: scenario_def)

lemma detectTrends_scenario: "detectTrends scenario ''x'' = Some (Upward (Fin 100) (Fin 400))"
  by (simp add: detectTrends_def nv_scenario_x len_scenario jgt_def nthNum_def jsub_def)

text \<open>
  Claim C6. With \<open>increases\<close> and \<open>decreases\<close> the numbers of strictly rising and
  strictly falling consecutive pairs of the parsed sequence, \<open>detectTrends\<close> returns
  nothing when the dataset or the parsed sequence has fewer than 5 elements or when there
  is no strict change; otherwise it is upward, with consistency
  \<open>increases / totalChanges * 100\<close> and rate \<open>(last / first - 1) * 100\<close>, when that
  percentage exceeds 60; else downward, with rate \<open>(1 - last / first) * 100\<close>, when the
  percentage of decreases exceeds 60; else fluctuating with both percentages. On the
  five-row scenario the trend of \<open>x\<close> is upward with consistency 100.
\<close>

theorem detectTrends_cases:
  "detectTrends data column =
     (let values = numericValuesOf data column;
          increases = length (filter (\<lambda>(a, b). jlt a b) (zip values (tl values)));
          decreases = length (filter (\<lambda>(a, b). jlt b a) (zip values (tl values)));
          totalChanges = increases + decreases
      in if length data < 5 \<or> length values < 5 \<or> totalChanges = 0 then None
         else if real increases / real totalChanges * 100 > 60 then
           Some (Upward (Fin (real increases / real totalChanges * 100))
                   (jmul (jsub (jdiv (last values) (hd values)) (Fin 1)) (Fin 100)))
         else if real decreases / real totalChanges * 100 > 60 then
           Some (Downward (Fin (real decreases / real totalChanges * 100))
                   (jmul (jsub (Fin 1) (jdiv (last values) (hd values))) (Fin 100)))
         else Some (Fluctuating (Fin (real increases / real totalChanges * 100))
                      (Fin (real decreases / real totalChanges * 100))))
   \<and> detectTrends scenario ''x'' = Some (Upward (Fin 100) (Fin 400))"
proof
  define vals where "vals = numericValuesOf data column"
  define increases where "increases = length (filter (\<lambda>(a, b). jlt a b) (zip vals (tl vals)))"
  define decreases where "decreases = length (filter (\<lambda>(a, b). jlt b a) (zip vals (tl vals)))"
  have cc: "countChanges vals (0, 0) = (increases, decreases)"
    by (simp add: countChanges_count increases_def decreases_def)
  have ends: "\<not> length vals < 5 \<Longrightarrow>
      nthNum vals 0 = hd vals \<and> nthNum vals (length vals - 1) = last vals"
  proof -
    assume "\<not> length vals < 5"
    then have "vals \<noteq> []" by auto
    then show ?thesis
      using nthNum_hd [of vals] nthNum_last [of vals] by simp
  qed
  have pct: "increases + decreases \<noteq> 0 \<Longrightarrow>
      jmul (jdiv (Fin (real k)) (Fin (real (increases + decreases)))) (Fin 100)
        = Fin (real k / real (increases + decreases) * 100)" for k
  proof -
    assume "increases + decreases \<noteq> 0"
    then have "real (increases + decreases) \<noteq> 0"
      by (simp only: of_nat_eq_0_iff) simp
    then show ?thesis by (simp del: of_nat_add)
  qed
  have "detectTrends data column =
     (if length data < 5 \<or> length vals < 5 \<or> increases + decreases = 0 then None
         else if real increases / real (increases + decreases) * 100 > 60 then
           Some (Upward (Fin (real increases / real (increases + decreases) * 100))
                   (jmul (jsub (jdiv (last vals) (hd vals)) (Fin 1)) (Fin 100)))
         else if real decreases / real (increases + decreases) * 100 > 60 then
           Some (Downward (Fin (real decreases / real (increases + decreases) * 100))
                   (jmul (jsub (Fin 1) (jdiv (last vals) (hd vals))) (Fin 100)))
         else Some (Fluctuating (Fin (real increases / real (increases + decreases) * 100))
                      (Fin (real decreases / real (increases + decreases) * 100))))"
    unfolding detectTrends_def vals_def [symmetric] Let_def cc
    using ends pct by (auto simp add: jgt_def simp del: jmul.simps jdiv.simps)
  then show "detectTrends data column =
     (let values = numericValuesOf data column;
          increases = length (filter (\<lambda>(a, b). jlt a b) (zip values (tl values)));
          decreases = length (filter (\<lambda>(a, b). jlt b a) (zip values (tl values)));
          totalChanges = increases + decreases
      in if length data < 5 \<or> length values < 5 \<or> totalChanges = 0 then None
         else if real increases / real totalChanges * 100 > 60 then
           Some (Upward (Fin (real increases / real totalChanges * 100))
                   (jmul (jsub (jdiv (last values) (hd values)) (Fin 1)) (Fin 100)))
         else if real decreases / real totalChanges * 100 > 60 then
           Some (Downward (Fin (real decreases / real totalChanges * 100))
                   (jmul (jsub (Fin 1) (jdiv (last values) (hd values))) (Fin 100)))
         else Some (Fluctuating (Fin (real increases / real totalChanges * 100))
                      (Fin (real decreases / real totalChanges * 100))))"
    unfolding Let_def vals_def increases_def decreases_def .
  show "detectTrends scenario ''x'' = Some (Upward (Fin 100) (Fin 400))"
    by (rule detectTrends_scenario)
qed


theorem detectTrends_cases_witness:
  "detectTrends scenario ''x'' = Some (Upward (Fin 100) (Fin 400)) \<and>
   length (filter (\<lambda>(a, b). jlt a b)
     (zip (numericValuesOf scenario ''x'') (tl (numericValuesOf scenario ''x'')))) = 4 \<and>
   length (filter (\<lambda>(a, b). jlt b a)
     (zip (numericValuesOf scenario ''x'') (tl (numericValuesOf scenario ''x'')))) = 0"
proof -
  have up: "length (filter (\<lambda>(a, b). jlt a b)
     (zip (numericValuesOf scenario ''x'') (tl (numericValuesOf scenario ''x'')))) = 4"
    by (simp add: nv_scenario_x)
  have down: "length (filter (\<lambda>(a, b). jlt b a)
     (zip (numericValuesOf scenario ''x'') (tl (numericValuesOf scenario ''x'')))) = 0"
    by (simp add: nv_scenario_x)
  from detectTrends_cases [of scenario "''x''"]
  have "detectTrends scenario ''x'' = Some (Upward (Fin 100) (Fin 400))"
    by (rule conjunct2)
  with up down show ?thesis by blast
qed

section \<open>Evaluating the rounding\<close>

lemma roundHalfEven_near:
  assumes "\<bar>x - of_int n\<bar> < 1 / 2"
  shows "roundHalfEven x = n"
proof (cases "of_int n \<le> x")
  case True
  then have "\<lfloor>x\<rfloor> = n" using assms by linarith
  then show ?thesis using assms True by (simp add: roundHalfEven_def Let_def)
next
  case False
  then have f: "\<lfloor>x\<rfloor> = n - 1" using assms by linarith
  have "\<not> x - of_int (n - 1) < 1 / 2" "x - of_int (n - 1) > 1 / 2"
    using assms False by auto
  then show ?thesis by (simp add: roundHalfEven_def Let_def f)
qed

lemma binade_eq:
  assumes "2 powi e \<le> \<bar>x\<bar>" and "\<bar>x\<bar> < 2 powi (e + 1)" and "- 1022 \<le> e"
  shows "binade x = e"
proof -
  have "(0 :: real) < 2 powi e" by (rule zero_less_power_int) simp
  then have pos: "0 < \<bar>x\<bar>"
    using assms(1) by linarith
  have p: "(2 :: real) powr real_of_int k = 2 powi k" for k
    by (rule powr_real_of_int') simp_all
  have "2 powr real_of_int e \<le> \<bar>x\<bar> \<and> \<bar>x\<bar> < 2 powr real_of_int (e + 1)"
    unfolding p using assms(1,2) by blast
  moreover have "(1 :: real) < 2" by simp
  ultimately have "\<lfloor>log 2 \<bar>x\<bar>\<rfloor> = e"
    using pos floor_log_eq_powr_iff [of "\<bar>x\<bar>" 2 e] by blast
  then show ?thesis using assms(3) by (simp add: binade_def)
qed

lemma fl64_near:
  assumes "2 powi e \<le> \<bar>x\<bar>" and "\<bar>x\<bar> < 2 powi (e + 1)" and "- 1022 \<le> e"
    and "\<bar>x / 2 powi (e - 52) - of_int n\<bar> < 1 / 2"
    and "\<bar>of_int n * 2 powi (e - 52)\<bar> < (2 :: real) ^ 1024"
  shows "fl64 x = Fin (of_int n * 2 powi (e - 52))"
proof -
  have "(0 :: real) < 2 powi e" by (rule zero_less_power_int) simp
  then have "0 < \<bar>x\<bar>"
    using assms(1) by linarith
  then have "x \<noteq> 0" by simp
  moreover have "binade x = e" using assms(1-3) by (rule binade_eq)
  moreover have "roundHalfEven (x / 2 powi (e - 52)) = n"
    using assms(4) by (rule roundHalfEven_near)
  ultimately show ?thesis
    using assms(5) by (simp add: fl64_def Let_def)
qed

lemma fl64_values:
  "fl64 1 = Fin 1"
  "fl64 5 = Fin 5"
  "fl64 (5 / 2) = Fin (5 / 2)"
  "fl64 (3 / 2) = Fin (3 / 2)"
  "fl64 (- (3 / 2)) = Fin (- (3 / 2))"
  "fl64 (9 / 4) = Fin (9 / 4)"
  "fl64 (9 / 2) = Fin (9 / 2)"
  using fl64_near [of 0 1 "2 ^ 52"] fl64_near [of 2 5 "5 * 2 ^ 50"]
    fl64_near [of 1 "5 / 2" "5 * 2 ^ 50"] fl64_near [of 0 "3 / 2" "3 * 2 ^ 51"]
    fl64_near [of 0 "- (3 / 2)" "- (3 * 2 ^ 51)"] fl64_near [of 1 "9 / 4" "9 * 2 ^ 49"]
    fl64_near [of 2 "9 / 2" "9 * 2 ^ 49"]
  by simp_all




section \<open>Descriptive statistics\<close>

lemma jle_refl: "\<not> isNaN a \<Longrightarrow> jle a a"
  by (cases a) auto

lemma jle_trans: "jle a b \<Longrightarrow> jle b c \<Longrightarrow> jle a c"
  by (cases a; cases b; cases c) auto

lemma jle_antisym: "jle a b \<Longrightarrow> jle b a \<Longrightarrow> a = b"
  by (cases a; cases b) auto

lemma jlt_imp_jle: "jlt a b \<Longrightarrow> jle a b"
  by (cases a; cases b) auto

lemma not_jlt_imp_jle: "\<not> isNaN a \<Longrightarrow> \<not> isNaN b \<Longrightarrow> \<not> jlt b a \<Longrightarrow> jle a b"
  by (cases a; cases b) auto

lemma compare_sub: "\<not> isNaN a \<Longrightarrow> \<not> isNaN b \<Longrightarrow> jgt (jsub a b) (Fin 0) = jlt b a"
  by (cases a; cases b) (auto simp add: jgt_def jsub_def)

lemma set_insertBy: "set (insertBy cmp x xs) = insert x (set xs)"
  by (induction xs) auto

lemma sorted_insertBy_sub:
  assumes "sorted_wrt jle ys" and "\<not> isNaN x" and "\<forall>y \<in> set ys. \<not> isNaN y"
  shows "sorted_wrt jle (insertBy (\<lambda>a b. jsub a b) x ys)"
  using assms
proof (induction ys)
  case Nil
  then show ?case by simp
next
  case (Cons y ys)
  show ?case
  proof (cases "jlt y x")
    case True
    then have "jle y x" by (rule jlt_imp_jle)
    with Cons True show ?thesis
      by (auto simp add: compare_sub set_insertBy)
  next
    case False
    then have "jle x y"
      using Cons.prems by (auto intro: not_jlt_imp_jle)
    with Cons False show ?thesis
      by (auto simp add: compare_sub intro: jle_trans)
  qed
qed

lemma no_NaN_numericValuesOf: "v \<in> set (numericValuesOf data key) \<Longrightarrow> \<not> isNaN v"
  by (simp add: numericValuesOf_def)

lemma sorted_sortNum:
  "\<forall>v \<in> set vs. \<not> isNaN v \<Longrightarrow> sorted_wrt jle (sortNum vs)"
proof (induction vs)
  case Nil
  then show ?case by (simp add: sortNum_def sortBy_def)
next
  case (Cons v vs)
  then have "sorted_wrt jle (sortNum vs)" by simp
  moreover have "\<forall>y \<in> set (sortNum vs). \<not> isNaN y"
    using Cons.prems by (simp add: sortNum_def set_sortBy)
  ultimately have "sorted_wrt jle (insertBy (\<lambda>a b. jsub a b) v (sortNum vs))"
    using Cons.prems by (intro sorted_insertBy_sub) simp_all
  then show ?case by (simp add: sortNum_def sortBy_def)
qed




lemma calculateStats_Some:
  "calculateStats data key = Some s \<Longrightarrow>
     s = statsOfSorted (sortNum (numericValuesOf data key)) \<and> numericValuesOf data key \<noteq> []"
  by (auto simp add: calculateStats_def Let_def split: if_splits)

lemma length_sortNum: "length (sortNum vs) = length vs"
  by (simp add: sortNum_def length_sortBy)

lemma set_sortNum: "set (sortNum vs) = set vs"
  by (simp add: sortNum_def set_sortBy)

lemma nthNum_nth: "i < length xs \<Longrightarrow> nthNum xs i = xs ! i"
  by (simp add: nthNum_def)


lemma stats_fields:
  "st_min (statsOfSorted vs) = nthNum vs 0"
  "st_q1 (statsOfSorted vs) = nthNum vs (q1Index (length vs))"
  "st_median (statsOfSorted vs) = medianOf vs"
  "st_q3 (statsOfSorted vs) = nthNum vs (q3Index (length vs))"
  "st_max (statsOfSorted vs) = nthNum vs (length vs - 1)"
  "st_mode (statsOfSorted vs) = modeOf vs"
  by (simp_all add: statsOfSorted_def Let_def)













lemma nv_twoPoints:
  "numericValuesOf twoPoints ''a'' = [Fin 1, Fin 4]"
  "numericValuesOf twoPoints ''b'' = [Fin 1, Fin 4]"
  by (simp_all add: twoPoints_def numericValuesOf_def toNumber_def getCell_def)




subsection \<open>The mode\<close>

lemma count_list_snoc: "count_list (p @ [x]) v = (if v = x then count_list p v + 1 else count_list p v)"
  by (induction p) auto

lemma count_list_pos_iff: "0 < count_list p v \<longleftrightarrow> v \<in> set p"
  by (induction p) auto

lemma modeInv_step:
  assumes inv: "modeInv p s" and le: "\<forall>y \<in> set p. jle y x" and nn: "\<not> isNaN x"
  shows "modeInv (p @ [x]) (modeStep s x)"
proof -
  define q where "q = p @ [x]"
  have cq: "count_list q v = (if v = x then count_list p v + 1 else count_list p v)" for v
    by (simp add: q_def count_list_snoc)
  have sq: "set q = insert x (set p)" and qne: "q \<noteq> []"
    by (simp_all add: q_def)
  from inv have fr: "frequency s = count_list p"
    and ub: "\<And>v. count_list p v \<le> maxFreq s"
    and emp: "p = [] \<Longrightarrow> maxFreq s = 0 \<and> mode s = None"
    and best: "p \<noteq> [] \<Longrightarrow> \<exists>m. mode s = Some m \<and> m \<in> set p \<and> count_list p m = maxFreq s \<and>
             (\<forall>v \<in> set p. count_list p v = maxFreq s \<longrightarrow> jle m v)"
    by (auto simp add: modeInv_def)
  have f': "(frequency s)(x := frequency s x + 1) = count_list q"
    by (rule ext) (simp add: fr cq)
  have "modeInv q (modeStep s x)"
  proof (cases "count_list p x + 1 > maxFreq s")
    case True
    then have st: "modeStep s x =
        \<lparr>frequency = count_list q, maxFreq = count_list q x, mode = Some x\<rparr>"
      using f' by (simp add: modeStep_def Let_def fr cq)
    have bound: "count_list q v \<le> count_list q x" for v
      using ub [of v] True by (simp add: cq)
    have uniq: "v = x" if "count_list q v = count_list q x" for v
    proof (rule ccontr)
      assume "v \<noteq> x"
      with that have "count_list p v = count_list p x + 1" by (simp add: cq)
      with ub [of v] True show False by simp
    qed
    have least: "\<forall>v \<in> set q. count_list q v = count_list q x \<longrightarrow> jle x v"
    proof (intro ballI impI)
      fix v assume "v \<in> set q" and eq: "count_list q v = count_list q x"
      from eq have "v = x" by (rule uniq)
      then show "jle x v" using nn by (simp add: jle_refl)
    qed
    show ?thesis
      unfolding modeInv_def st using bound least qne sq by simp
  next
    case False
    then have st: "modeStep s x =
        \<lparr>frequency = count_list q, maxFreq = maxFreq s, mode = mode s\<rparr>"
      using f' by (simp add: modeStep_def Let_def fr cq)
    from False have "maxFreq s \<noteq> 0" by simp
    with emp have pne: "p \<noteq> []" by auto
    from best [OF pne] obtain m where m: "mode s = Some m" "m \<in> set p"
      "count_list p m = maxFreq s" "\<forall>v \<in> set p. count_list p v = maxFreq s \<longrightarrow> jle m v"
      by blast
    have mx: "m \<noteq> x" using m(3) False by auto
    have bound: "count_list q v \<le> maxFreq s" for v
      using ub [of v] False by (simp add: cq)
    have cm: "count_list q m = maxFreq s"
      using m(3) mx by (simp add: cq)
    have least: "\<forall>v \<in> set q. count_list q v = maxFreq s \<longrightarrow> jle m v"
      using m(2,4) le by (auto simp add: cq sq split: if_splits)
    have "m \<in> set q" using m(2) by (simp add: sq)
    then show ?thesis
      unfolding modeInv_def st using bound least qne cm m(1) by simp
  qed
  then show ?thesis by (simp only: q_def)
qed

lemma modeInv_foldl:
  assumes "sorted_wrt jle vs" and "\<forall>v \<in> set vs. \<not> isNaN v"
  shows "modeInv vs (foldl modeStep \<lparr>frequency = (\<lambda>_. 0), maxFreq = 0, mode = None\<rparr> vs)"
  using assms
proof (induction vs rule: rev_induct)
  case Nil
  show ?case by (auto simp add: modeInv_def)
next
  case (snoc x xs)
  then have "modeInv xs (foldl modeStep \<lparr>frequency = (\<lambda>_. 0), maxFreq = 0, mode = None\<rparr> xs)"
    by (simp add: sorted_wrt_append)
  moreover have "\<forall>y \<in> set xs. jle y x"
    using snoc.prems by (simp add: sorted_wrt_append)
  moreover have "\<not> isNaN x" using snoc.prems by simp
  ultimately show ?case
    by (simp add: modeInv_step)
qed


lemma count_list_sortNum: "count_list (sortNum vs) v = count_list vs v"
proof -
  have "mset (sortNum vs) = mset vs" by (simp add: sortNum_def mset_sortBy)
  then have "count (mset (sortNum vs)) v = count (mset vs) v" by simp
  then show ?thesis by (simp only: count_mset)
qed

text \<open>
  Claim C9. For every column with at least one parsed value, the mode is a parsed value of
  maximal frequency, and it is below or equal to every parsed value of that frequency: the
  smallest most frequent value. It is what the left-to-right scan of the ascending-sorted
  array leaves in \<open>mode\<close>.
\<close>

theorem calculateStats_mode_smallest_most_frequent:
  assumes "calculateStats data key = Some s"
  shows "\<exists>m. st_mode s = Some m \<and> m \<in> set (numericValuesOf data key) \<and>
           (\<forall>v. count_list (numericValuesOf data key) v \<le> count_list (numericValuesOf data key) m) \<and>
           (\<forall>v \<in> set (numericValuesOf data key).
              count_list (numericValuesOf data key) v = count_list (numericValuesOf data key) m
                \<longrightarrow> jle m v) \<and>
           sorted_wrt jle (sortNum (numericValuesOf data key)) \<and>
           st_mode s = mode (foldl modeStep \<lparr>frequency = (\<lambda>_. 0), maxFreq = 0, mode = None\<rparr>
                              (sortNum (numericValuesOf data key)))"
proof -
  define nv where "nv = numericValuesOf data key"
  define vs where "vs = sortNum nv"
  define final where "final = foldl modeStep \<lparr>frequency = (\<lambda>_. 0), maxFreq = 0, mode = None\<rparr> vs"
  from calculateStats_Some [OF assms]
  have s: "s = statsOfSorted vs" and ne: "nv \<noteq> []"
    by (simp_all add: vs_def nv_def)
  have md: "st_mode s = mode final"
    by (simp add: s stats_fields modeOf_def final_def)
  have nn: "\<forall>v \<in> set vs. \<not> isNaN v"
    by (simp add: vs_def nv_def set_sortNum no_NaN_numericValuesOf)
  have srt: "sorted_wrt jle vs"
    unfolding vs_def nv_def by (rule sorted_sortNum) (simp add: no_NaN_numericValuesOf)
  have vne: "vs \<noteq> []"
    using ne length_sortNum [of nv] by (auto simp add: vs_def)
  have "modeInv vs final"
    unfolding final_def by (rule modeInv_foldl [OF srt nn])
  with vne obtain m where m: "mode final = Some m" "m \<in> set vs"
    "count_list vs m = maxFreq final"
    "\<forall>v \<in> set vs. count_list vs v = maxFreq final \<longrightarrow> jle m v"
    and ub: "\<And>v. count_list vs v \<le> maxFreq final"
    unfolding modeInv_def by blast
  have cnt: "count_list vs v = count_list nv v" for v
    by (simp add: vs_def count_list_sortNum)
  have sv: "set vs = set nv" by (simp add: vs_def set_sortNum)
  have "st_mode s = Some m" by (simp add: md m(1))
  moreover have "m \<in> set nv" using m(2) sv by simp
  moreover have "\<forall>v. count_list nv v \<le> count_list nv m"
    using ub m(3) by (simp add: cnt)
  moreover have "\<forall>v \<in> set nv. count_list nv v = count_list nv m \<longrightarrow> jle m v"
    using m(3,4) by (simp add: cnt sv)
  ultimately have "\<exists>m. st_mode s = Some m \<and> m \<in> set nv \<and>
           (\<forall>v. count_list nv v \<le> count_list nv m) \<and>
           (\<forall>v \<in> set nv. count_list nv v = count_list nv m \<longrightarrow> jle m v) \<and>
           sorted_wrt jle vs \<and> st_mode s = mode final"
    using srt md by blast
  then show ?thesis
    unfolding final_def vs_def nv_def .
qed

lemma nv_tied: "numericValuesOf tied ''x'' = [Fin 3, Fin 1, Fin 3, Fin 1, Fin 2]"
  by (simp add: tied_def numericValuesOf_def toNumber_def getCell_def parseFloat_def
      parseUnsigned_def isWhite_def isDigit_def digitsVal_def digitVal_def parseExponent_def
      scale10_def)

lemma sortNum_tied: "sortNum [Fin 3, Fin 1, Fin 3, Fin 1, Fin 2] = [Fin 1, Fin 1, Fin 2, Fin 3, Fin 3]"
  by (simp add: sortNum_def sortBy_def jsub_def jgt_def)

lemma modeOf_tied: "modeOf [Fin 1, Fin 1, Fin 2, Fin 3, Fin 3] = Some (Fin 1)"
  by (simp add: modeOf_def modeStep_def Let_def)

lemma calculateStats_tied:
  "calculateStats tied ''x'' = Some (statsOfSorted [Fin 1, Fin 1, Fin 2, Fin 3, Fin 3])"
  by (simp add: calculateStats_def nv_tied sortNum_tied)

theorem calculateStats_mode_smallest_most_frequent_witness:
  "map_option st_mode (calculateStats tied ''x'') = Some (Some (Fin 1)) \<and>
   count_list (numericValuesOf tied ''x'') (Fin 1) = 2 \<and>
   count_list (numericValuesOf tied ''x'') (Fin 3) = 2 \<and>
   count_list (numericValuesOf tied ''x'') (Fin 2) = 1 \<and>
   (\<exists>m. map_option st_mode (calculateStats tied ''x'') = Some (Some m) \<and> jle m (Fin 3))"
proof -
  from calculateStats_mode_smallest_most_frequent [OF calculateStats_tied]
  obtain m where m: "st_mode (statsOfSorted [Fin 1, Fin 1, Fin 2, Fin 3, Fin 3]) = Some m"
    "\<forall>v \<in> set (numericValuesOf tied ''x'').
        count_list (numericValuesOf tied ''x'') v = count_list (numericValuesOf tied ''x'') m
          \<longrightarrow> jle m v"
    by blast
  have m1: "m = Fin 1" using m(1) by (simp add: stats_fields modeOf_tied)
  have "jle m (Fin 3)" using m(2) by (simp add: nv_tied m1)
  then show ?thesis
    by (simp add: calculateStats_tied stats_fields modeOf_tied nv_tied m1)
qed

section \<open>The correlation coefficient\<close>

lemma jmul_commute: "jmul a b = jmul b a"
  by (cases a; cases b) (auto simp add: mult.commute)

lemma foldl_pearsonStep_swap:
  "foldl (pearsonStep mb ma) (num, db, da) (zip bs as) =
     (case foldl (pearsonStep ma mb) (num, da, db) (zip as bs) of (N, DA, DB) \<Rightarrow> (N, DB, DA))"
proof (induction as arbitrary: bs num da db)
  case Nil
  then show ?case by simp
next
  case (Cons x xs)
  show ?case
  proof (cases bs)
    case Nil
    then show ?thesis by simp
  next
    case (Cons y ys)
    then show ?thesis
      using Cons.IH [where bs = ys and num = "jadd num (jmul (jsub x ma) (jsub y mb))"
          and da = "jadd da (jmul (jsub x ma) (jsub x ma))"
          and db = "jadd db (jmul (jsub y mb) (jsub y mb))"]
      by (simp add: pearsonStep_def Let_def jmul_commute [of "jsub y mb" "jsub x ma"])
  qed
qed

lemma pearson_commute:
  assumes "length values1 = length values2"
  shows "pearson values1 values2 = pearson values2 values1"
proof -
  obtain N D1 D2 where f: "foldl (pearsonStep (jdiv (sumNum values1) (Fin (real (length values1))))
      (jdiv (sumNum values2) (Fin (real (length values1))))) (Fin 0, Fin 0, Fin 0)
      (zip values1 values2) = (N, D1, D2)"
    by (metis prod_cases3)
  with foldl_pearsonStep_swap [where mb = "jdiv (sumNum values2) (Fin (real (length values1)))"
      and ma = "jdiv (sumNum values1) (Fin (real (length values1)))" and num = "Fin 0"
      and da = "Fin 0" and db = "Fin 0" and bs = values2 and as = values1]
  show ?thesis
    using assms by (simp add: pearson_def Let_def jmul_commute [of "jsqrt D1" "jsqrt D2"])
qed

lemma four_mul_le: "4 * p * q \<le> (p + q)\<^sup>2" for p q :: real
  using sum_squares_bound [of p q] by (simp add: power2_sum)

lemma cauchy_step:
  fixes S A B u v :: real
  assumes "S\<^sup>2 \<le> A * B" and "0 \<le> A" and "0 \<le> B"
  shows "(S + u * v)\<^sup>2 \<le> (A + u\<^sup>2) * (B + v\<^sup>2)"
proof -
  have "(2 * S * u * v)\<^sup>2 = 4 * S\<^sup>2 * (u\<^sup>2 * v\<^sup>2)"
    by (simp add: power2_eq_square)
  also have "\<dots> \<le> 4 * (A * B) * (u\<^sup>2 * v\<^sup>2)"
    using assms(1) by (intro mult_right_mono mult_left_mono) simp_all
  also have "\<dots> = 4 * (A * v\<^sup>2) * (B * u\<^sup>2)"
    by simp
  also have "\<dots> \<le> (A * v\<^sup>2 + B * u\<^sup>2)\<^sup>2"
    by (rule four_mul_le)
  finally have "(2 * S * u * v)\<^sup>2 \<le> (A * v\<^sup>2 + B * u\<^sup>2)\<^sup>2" .
  moreover have "0 \<le> A * v\<^sup>2 + B * u\<^sup>2"
    using assms(2,3) by simp
  ultimately have "2 * S * u * v \<le> A * v\<^sup>2 + B * u\<^sup>2"
    by (rule power2_le_imp_le)
  moreover have "(S + u * v)\<^sup>2 = S\<^sup>2 + 2 * S * u * v + u\<^sup>2 * v\<^sup>2"
    by (simp add: power2_eq_square algebra_simps)
  moreover have "(A + u\<^sup>2) * (B + v\<^sup>2) = A * B + (A * v\<^sup>2 + B * u\<^sup>2) + u\<^sup>2 * v\<^sup>2"
    by (simp add: algebra_simps)
  ultimately show ?thesis
    using assms(1) by linarith
qed


lemma cauchy_list:
  fixes f g :: "'a \<Rightarrow> real"
  shows "(\<Sum>p\<leftarrow>ps. f p * g p)\<^sup>2 \<le> (\<Sum>p\<leftarrow>ps. (f p)\<^sup>2) * (\<Sum>p\<leftarrow>ps. (g p)\<^sup>2)
         \<and> 0 \<le> (\<Sum>p\<leftarrow>ps. (f p)\<^sup>2) \<and> 0 \<le> (\<Sum>p\<leftarrow>ps. (g p)\<^sup>2)"
proof (induction ps)
  case Nil
  then show ?case by simp
next
  case (Cons p ps)
  then have "((\<Sum>p\<leftarrow>ps. f p * g p) + f p * g p)\<^sup>2
      \<le> ((\<Sum>p\<leftarrow>ps. (f p)\<^sup>2) + (f p)\<^sup>2) * ((\<Sum>p\<leftarrow>ps. (g p)\<^sup>2) + (g p)\<^sup>2)"
    by (intro cauchy_step) simp_all
  with Cons show ?case
    by (simp add: add.commute)
qed

lemma foldl_jadd_Fin: "foldl jadd (Fin a) (map Fin xs) = Fin (a + sum_list xs)"
  by (induction xs arbitrary: a) (simp_all add: add.assoc)

lemma sumNum_Fin: "sumNum (map Fin xs) = Fin (sum_list xs)"
  by (simp add: sumNum_def foldl_jadd_Fin)

lemma foldl_pearsonStep_Fin:
  "foldl (pearsonStep (Fin ma) (Fin mb)) (Fin num, Fin da, Fin db) (zip (map Fin xs) (map Fin ys)) =
     (Fin (num + (\<Sum>p\<leftarrow>zip xs ys. (fst p - ma) * (snd p - mb))),
      Fin (da + (\<Sum>p\<leftarrow>zip xs ys. (fst p - ma)\<^sup>2)),
      Fin (db + (\<Sum>p\<leftarrow>zip xs ys. (snd p - mb)\<^sup>2)))"
proof (induction xs arbitrary: ys num da db)
  case Nil
  then show ?case by simp
next
  case (Cons x xs)
  show ?case
  proof (cases ys)
    case Nil
    then show ?thesis by simp
  next
    case (Cons y ys')
    then show ?thesis
      using Cons.IH [where ys = ys' and num = "num + (x - ma) * (y - mb)"
          and da = "da + (x - ma) * (x - ma)" and db = "db + (y - mb) * (y - mb)"]
      by (simp add: pearsonStep_def Let_def jsub_def power2_eq_square add.assoc)
  qed
qed

lemma pearson_Fin_range:
  "pearson (map Fin xs) (map Fin ys) = NaN \<or>
   (\<exists>r. pearson (map Fin xs) (map Fin ys) = Fin r \<and> - 1 \<le> r \<and> r \<le> 1)"
proof (cases "xs = []")
  case True
  then show ?thesis by (simp add: pearson_def sumNum_def)
next
  case False
  define n where "n = real (length xs)"
  have npos: "n \<noteq> 0" using False by (simp add: n_def)
  define ma where "ma = sum_list xs / n"
  define mb where "mb = sum_list ys / n"
  define N where "N = (\<Sum>p\<leftarrow>zip xs ys. (fst p - ma) * (snd p - mb))"
  define DA where "DA = (\<Sum>p\<leftarrow>zip xs ys. (fst p - ma)\<^sup>2)"
  define DB where "DB = (\<Sum>p\<leftarrow>zip xs ys. (snd p - mb)\<^sup>2)"
  have cs: "N\<^sup>2 \<le> DA * DB" "0 \<le> DA" "0 \<le> DB"
    using cauchy_list [of "\<lambda>p. fst p - ma" "\<lambda>p. snd p - mb" "zip xs ys"]
    by (simp_all add: N_def DA_def DB_def)
  have means: "jdiv (sumNum (map Fin xs)) (Fin (real (length (map Fin xs)))) = Fin ma"
    "jdiv (sumNum (map Fin ys)) (Fin (real (length (map Fin xs)))) = Fin mb"
    using npos by (simp_all add: sumNum_Fin ma_def mb_def n_def)
  have fold: "foldl (pearsonStep (Fin ma) (Fin mb)) (Fin 0, Fin 0, Fin 0)
      (zip (map Fin xs) (map Fin ys)) = (Fin N, Fin DA, Fin DB)"
    using foldl_pearsonStep_Fin [of ma mb 0 0 0 xs ys] by (simp add: N_def DA_def DB_def)
  have p: "pearson (map Fin xs) (map Fin ys) = jdiv (Fin N) (Fin (sqrt DA * sqrt DB))"
    unfolding pearson_def Let_def means fold using cs(2,3) by simp
  show ?thesis
  proof (cases "sqrt DA * sqrt DB = 0")
    case True
    then have "DA * DB = 0" by auto
    with cs(1) have "N = 0" by simp
    with True show ?thesis by (simp add: p)
  next
    case False
    have "\<bar>N\<bar> \<le> sqrt (DA * DB)"
      using cs(1) by (metis real_sqrt_abs real_sqrt_le_iff)
    then have le: "\<bar>N\<bar> \<le> sqrt DA * sqrt DB"
      by (simp add: real_sqrt_mult)
    have pos: "0 < sqrt DA * sqrt DB"
      using False cs(2,3) by (simp add: less_eq_real_def)
    have "N \<le> sqrt DA * sqrt DB" and "- (sqrt DA * sqrt DB) \<le> N"
      using le by linarith+
    then have "- 1 \<le> N / (sqrt DA * sqrt DB) \<and> N / (sqrt DA * sqrt DB) \<le> 1"
      using pos by (simp add: pos_le_divide_eq pos_divide_le_eq)
    with False show ?thesis by (simp add: p)
  qed
qed


lemma all_finite_map_Fin: "\<forall>x \<in> set vs. finiteNum x \<Longrightarrow> \<exists>xs. vs = map Fin xs"
proof (induction vs)
  case Nil
  then show ?case by simp
next
  case (Cons v vs)
  then obtain xs where "vs = map Fin xs" by auto
  moreover obtain r where "v = Fin r" using Cons.prems by (cases v) auto
  ultimately have "v # vs = map Fin (r # xs)" by simp
  then show ?case by (rule exI)
qed

lemma jadd_not_finite: "\<not> finiteNum a \<or> \<not> finiteNum b \<Longrightarrow> \<not> finiteNum (jadd a b)"
  by (cases a; cases b) auto

lemma foldl_jadd_not_finite:
  "\<not> finiteNum a \<or> (\<exists>x \<in> set xs. \<not> finiteNum x) \<Longrightarrow> \<not> finiteNum (foldl jadd a xs)"
proof (induction xs arbitrary: a)
  case Nil
  then show ?case by simp
next
  case (Cons x xs)
  have "\<not> finiteNum (jadd a x) \<or> (\<exists>y \<in> set xs. \<not> finiteNum y)"
    using Cons.prems jadd_not_finite [of a x] by auto
  then show ?case using Cons.IH by simp
qed

lemma jadd_PInf: "jadd a b = PInf \<Longrightarrow> a = PInf \<or> b = PInf"
  by (cases a; cases b) auto

lemma jadd_NInf: "jadd a b = NInf \<Longrightarrow> a = NInf \<or> b = NInf"
  by (cases a; cases b) auto

lemma foldl_jadd_PInf: "foldl jadd a xs = PInf \<Longrightarrow> a = PInf \<or> PInf \<in> set xs"
proof (induction xs arbitrary: a)
  case Nil
  then show ?case by simp
next
  case (Cons x xs)
  then have "jadd a x = PInf \<or> PInf \<in> set xs" by simp
  then show ?case using jadd_PInf [of a x] by auto
qed

lemma foldl_jadd_NInf: "foldl jadd a xs = NInf \<Longrightarrow> a = NInf \<or> NInf \<in> set xs"
proof (induction xs arbitrary: a)
  case Nil
  then show ?case by simp
next
  case (Cons x xs)
  then have "jadd a x = NInf \<or> NInf \<in> set xs" by simp
  then show ?case using jadd_NInf [of a x] by auto
qed

lemma jadd_NaN_right: "jadd a NaN = NaN"
  by (cases a) auto

lemma some_diff_NaN:
  assumes "x \<in> set vs" and "\<not> finiteNum x"
  shows "\<exists>y \<in> set vs. jsub y (jdiv (sumNum vs) (Fin (real n))) = NaN"
proof -
  have nf: "\<not> finiteNum (sumNum vs)"
    unfolding sumNum_def using assms by (intro foldl_jadd_not_finite) blast
  show ?thesis
  proof (cases "sumNum vs")
    case NaN
    then have "jsub x (jdiv (sumNum vs) (Fin (real n))) = NaN"
      by (simp add: jsub_def jadd_NaN_right)
    with assms(1) show ?thesis by blast
  next
    case PInf
    then have "PInf \<in> set vs"
      using foldl_jadd_PInf [of "Fin 0" vs] by (simp add: sumNum_def)
    moreover have "jsub PInf (jdiv (sumNum vs) (Fin (real n))) = NaN"
      using PInf by (simp add: jsub_def)
    ultimately show ?thesis by blast
  next
    case NInf
    then have "NInf \<in> set vs"
      using foldl_jadd_NInf [of "Fin 0" vs] by (simp add: sumNum_def)
    moreover have "jsub NInf (jdiv (sumNum vs) (Fin (real n))) = NaN"
      using NInf by (simp add: jsub_def)
    ultimately show ?thesis by blast
  next
    case (Fin r)
    with nf show ?thesis by simp
  qed
qed

lemma foldl_pearsonStep_NaN_stays:
  "foldl (pearsonStep ma mb) (num, NaN, db) zs = (N, DA, DB) \<Longrightarrow> DA = NaN"
  "foldl (pearsonStep ma mb) (num, da, NaN) zs = (N, DA, DB) \<Longrightarrow> DB = NaN"
  by (induction zs arbitrary: num da db) (auto simp add: pearsonStep_def Let_def)

lemma jmul_NaN_right: "jmul a NaN = NaN"
  by (cases a) auto

lemma pearsonStep_NaN_left:
  "jsub (fst p) ma = NaN \<Longrightarrow> \<exists>n' d'. pearsonStep ma mb (num, da, db) p = (n', NaN, d')"
  by (simp add: pearsonStep_def Let_def jadd_NaN_right)

lemma pearsonStep_NaN_right:
  "jsub (snd p) mb = NaN \<Longrightarrow> \<exists>n' d'. pearsonStep ma mb (num, da, db) p = (n', d', NaN)"
  by (simp add: pearsonStep_def Let_def jadd_NaN_right jmul_NaN_right)

lemma pearsonStep_triple: "\<exists>n' a' b'. pearsonStep ma mb acc p = (n', a', b')"
  by (metis prod_cases3)

lemma foldl_pearsonStep_NaN_left:
  assumes "p \<in> set zs" and "jsub (fst p) ma = NaN"
    and "foldl (pearsonStep ma mb) (num, da, db) zs = (N, DA, DB)"
  shows "DA = NaN"
  using assms
proof (induction zs arbitrary: num da db)
  case Nil
  then show ?case by simp
next
  case (Cons z zs)
  show ?case
  proof (cases "p = z")
    case True
    then obtain n' d' where "pearsonStep ma mb (num, da, db) z = (n', NaN, d')"
      using pearsonStep_NaN_left [of p ma mb num da db] Cons.prems(2) by auto
    with Cons.prems(3) have "foldl (pearsonStep ma mb) (n', NaN, d') zs = (N, DA, DB)"
      by (simp only: foldl_Cons)
    then show ?thesis by (rule foldl_pearsonStep_NaN_stays(1))
  next
    case False
    obtain n' a' b' where st: "pearsonStep ma mb (num, da, db) z = (n', a', b')"
      using pearsonStep_triple by blast
    with Cons.prems(3) have "foldl (pearsonStep ma mb) (n', a', b') zs = (N, DA, DB)"
      by (simp only: foldl_Cons)
    moreover have "p \<in> set zs" using False Cons.prems(1) by simp
    ultimately show ?thesis using Cons.IH Cons.prems(2) by blast
  qed
qed

lemma foldl_pearsonStep_NaN_right:
  assumes "p \<in> set zs" and "jsub (snd p) mb = NaN"
    and "foldl (pearsonStep ma mb) (num, da, db) zs = (N, DA, DB)"
  shows "DB = NaN"
  using assms
proof (induction zs arbitrary: num da db)
  case Nil
  then show ?case by simp
next
  case (Cons z zs)
  show ?case
  proof (cases "p = z")
    case True
    then obtain n' d' where "pearsonStep ma mb (num, da, db) z = (n', d', NaN)"
      using pearsonStep_NaN_right [of p mb ma num da db] Cons.prems(2) by auto
    with Cons.prems(3) have "foldl (pearsonStep ma mb) (n', d', NaN) zs = (N, DA, DB)"
      by (simp only: foldl_Cons)
    then show ?thesis by (rule foldl_pearsonStep_NaN_stays(2))
  next
    case False
    obtain n' a' b' where st: "pearsonStep ma mb (num, da, db) z = (n', a', b')"
      using pearsonStep_triple by blast
    with Cons.prems(3) have "foldl (pearsonStep ma mb) (n', a', b') zs = (N, DA, DB)"
      by (simp only: foldl_Cons)
    moreover have "p \<in> set zs" using False Cons.prems(1) by simp
    ultimately show ?thesis using Cons.IH Cons.prems(2) by blast
  qed
qed

lemma jdiv_NaN_right: "jdiv a NaN = NaN"
  by (cases a) auto

lemma pearson_not_finite:
  assumes len: "length values1 = length values2"
    and nf: "(\<exists>x \<in> set values1. \<not> finiteNum x) \<or> (\<exists>y \<in> set values2. \<not> finiteNum y)"
  shows "pearson values1 values2 = NaN"
proof -
  define ma where "ma = jdiv (sumNum values1) (Fin (real (length values1)))"
  define mb where "mb = jdiv (sumNum values2) (Fin (real (length values1)))"
  obtain N DA DB where f: "foldl (pearsonStep ma mb) (Fin 0, Fin 0, Fin 0)
      (zip values1 values2) = (N, DA, DB)"
    by (metis prod_cases3)
  have "DA = NaN \<or> DB = NaN"
    using nf
  proof
    assume "\<exists>x \<in> set values1. \<not> finiteNum x"
    then obtain x where "x \<in> set values1" "jsub x ma = NaN"
      using some_diff_NaN [of _ values1 "length values1"] unfolding ma_def by blast
    moreover then obtain y where "(x, y) \<in> set (zip values1 values2)"
      using len by (metis in_set_impl_in_set_zip1)
    ultimately have "DA = NaN"
      using foldl_pearsonStep_NaN_left [OF _ _ f, of "(x, y)"] by simp
    then show ?thesis ..
  next
    assume "\<exists>y \<in> set values2. \<not> finiteNum y"
    then obtain y where "y \<in> set values2" "jsub y mb = NaN"
      using some_diff_NaN [of _ values2 "length values1"] unfolding mb_def by blast
    moreover then obtain x where "(x, y) \<in> set (zip values1 values2)"
      using len by (metis in_set_impl_in_set_zip2)
    ultimately have "DB = NaN"
      using foldl_pearsonStep_NaN_right [OF _ _ f, of "(x, y)"] by simp
    then show ?thesis ..
  qed
  then have "jmul (jsqrt DA) (jsqrt DB) = NaN"
    by (auto simp add: jmul_NaN_right)
  then show ?thesis
    unfolding pearson_def Let_def ma_def [symmetric] mb_def [symmetric] f
    by (simp add: jdiv_NaN_right)
qed

lemma pearson_range:
  assumes "length values1 = length values2" and "\<not> isNaN (pearson values1 values2)"
  shows "\<exists>r. pearson values1 values2 = Fin r \<and> - 1 \<le> r \<and> r \<le> 1"
proof (cases "(\<forall>x \<in> set values1. finiteNum x) \<and> (\<forall>y \<in> set values2. finiteNum y)")
  case True
  then obtain xs ys where "values1 = map Fin xs" "values2 = map Fin ys"
    using all_finite_map_Fin by blast
  then show ?thesis
    using pearson_Fin_range [of xs ys] assms(2) by auto
next
  case False
  then have "pearson values1 values2 = NaN"
    using assms(1) by (intro pearson_not_finite) auto
  with assms(2) show ?thesis by simp
qed


text \<open>
  The bound above is for the quotient in exact arithmetic. It does not carry over to the
  coefficient the code computes, whose operations round.
\<close>

subsection \<open>The coefficient in binary64\<close>

lemma near_from_bounds:
  fixes t :: real
  assumes "9553577508788657 < t * 4503599627370496" and "t * 4503599627370496 < 9553577508788659"
  shows "\<bar>t * 2251799813685248 - 4776788754394329\<bar> * 2 < 1"
  using assms by (auto simp add: abs_less_iff abs_if)

lemma fl64_sqrt_9_2: "fl64 (sqrt (9 / 2)) = Fin (4776788754394329 / 2251799813685248)"
proof -
  have lo: "9553577508788657 / 4503599627370496 < sqrt (9 / 2)"
    by (rule real_less_rsqrt) (simp add: power2_eq_square)
  have hi: "sqrt (9 / 2) < 9553577508788659 / 4503599627370496"
    by (rule real_less_lsqrt) (simp_all add: power2_eq_square)
  have pos: "0 \<le> sqrt (9 / 2)" by simp
  have "2 powi 1 \<le> \<bar>sqrt (9 / 2)\<bar>" "\<bar>sqrt (9 / 2)\<bar> < 2 powi (1 + 1)"
    using lo hi by simp_all
  moreover have "\<bar>sqrt (9 / 2) / 2 powi (1 - 52) - of_int 4776788754394329\<bar> < 1 / 2"
    using near_from_bounds [of "sqrt (9 / 2)"] lo hi by simp
  ultimately show ?thesis
    using fl64_near [of 1 "sqrt (9 / 2)" 4776788754394329] by simp
qed

lemma fl64_product:
  "fl64 (4776788754394329 / 2251799813685248 * (4776788754394329 / 2251799813685248)) =
     Fin (5066549580791807 / 1125899906842624)"
  using fl64_near [of 2 "4776788754394329 / 2251799813685248 * (4776788754394329 / 2251799813685248)"
      5066549580791807]
  by simp

lemma fl64_quotient:
  "fl64 (9 / 2 / (5066549580791807 / 1125899906842624)) =
     Fin (4503599627370497 / 4503599627370496)"
  using fl64_near [of 0 "9 / 2 / (5066549580791807 / 1125899906842624)" 4503599627370497]
  by simp

lemma mean64_1_4: "div64 (sumNum64 [Fin 1, Fin 4]) (Fin (real (length [Fin 1, Fin 4 :: jsnum]))) = Fin (5 / 2)"
  by (simp add: div64_def sumNum64_def add64_def fl64_values)

lemma fold64_1_4:
  "foldl (pearsonStep64 (Fin (5 / 2)) (Fin (5 / 2))) (Fin 0, Fin 0, Fin 0)
     (zip [Fin 1, Fin 4] [Fin 1, Fin 4]) = (Fin (9 / 2), Fin (9 / 2), Fin (9 / 2))"
  by (simp add: pearsonStep64_def Let_def sub64_def mul64_def add64_def jsub_def fl64_values)

lemma pearson64_1_4:
  "pearson64 [Fin 1, Fin 4] [Fin 1, Fin 4] = Fin (4503599627370497 / 4503599627370496)"
proof -
  have sq: "sqrt64 (Fin (9 / 2)) = Fin (4776788754394329 / 2251799813685248)"
    by (simp add: sqrt64_def fl64_sqrt_9_2)
  have pr: "mul64 (Fin (4776788754394329 / 2251799813685248))
      (Fin (4776788754394329 / 2251799813685248)) = Fin (5066549580791807 / 1125899906842624)"
    unfolding mul64_def jmul.simps fl.simps by (rule fl64_product)
  have qu: "div64 (Fin (9 / 2)) (Fin (5066549580791807 / 1125899906842624)) =
      Fin (4503599627370497 / 4503599627370496)"
  proof -
    have "jdiv (Fin (9 / 2)) (Fin (5066549580791807 / 1125899906842624)) =
        Fin (9 / 2 / (5066549580791807 / 1125899906842624))"
      by (simp del: divide_divide_eq_left divide_divide_eq_right times_divide_eq_left
          times_divide_eq_right)
    then show ?thesis
      unfolding div64_def by (simp only: fl.simps fl64_quotient)
  qed
  show ?thesis
    unfolding pearson64_def Let_def mean64_1_4 fold64_1_4 prod.case sq pr qu ..
qed


lemma mul64_commute: "mul64 a b = mul64 b a"
  by (simp add: mul64_def jmul_commute [of a b])

lemma foldl_pearsonStep64_swap:
  "foldl (pearsonStep64 mb ma) (num, db, da) (zip bs as) =
     (case foldl (pearsonStep64 ma mb) (num, da, db) (zip as bs) of (N, DA, DB) \<Rightarrow> (N, DB, DA))"
proof (induction as arbitrary: bs num da db)
  case Nil
  then show ?case by simp
next
  case (Cons x xs)
  show ?case
  proof (cases bs)
    case Nil
    then show ?thesis by simp
  next
    case (Cons y ys)
    then show ?thesis
      using Cons.IH [where bs = ys and num = "add64 num (mul64 (sub64 x ma) (sub64 y mb))"
          and da = "add64 da (mul64 (sub64 x ma) (sub64 x ma))"
          and db = "add64 db (mul64 (sub64 y mb) (sub64 y mb))"]
      by (simp add: pearsonStep64_def Let_def mul64_commute [of "sub64 y mb" "sub64 x ma"])
  qed
qed

lemma pearson64_commute:
  assumes "length values1 = length values2"
  shows "pearson64 values1 values2 = pearson64 values2 values1"
proof -
  define ma where "ma = div64 (sumNum64 values1) (Fin (real (length values1)))"
  define mb where "mb = div64 (sumNum64 values2) (Fin (real (length values1)))"
  obtain N DA DB where f: "foldl (pearsonStep64 ma mb) (Fin 0, Fin 0, Fin 0)
      (zip values1 values2) = (N, DA, DB)"
    by (metis prod_cases3)
  then have g: "foldl (pearsonStep64 mb ma) (Fin 0, Fin 0, Fin 0) (zip values2 values1) = (N, DB, DA)"
    using foldl_pearsonStep64_swap [where mb = mb and ma = ma and num = "Fin 0"
      and da = "Fin 0" and db = "Fin 0" and bs = values2 and as = values1]
    by simp
  have "pearson64 values1 values2 = div64 N (mul64 (sqrt64 DA) (sqrt64 DB))"
    by (simp add: pearson64_def Let_def ma_def [symmetric] mb_def [symmetric] f)
  moreover have len: "length values2 = length values1" using assms by simp
  have "pearson64 values2 values1 = div64 N (mul64 (sqrt64 DB) (sqrt64 DA))"
    by (simp only: pearson64_def Let_def len ma_def [symmetric] mb_def [symmetric] g prod.case)
  ultimately show ?thesis
    by (simp add: mul64_commute [of "sqrt64 DA" "sqrt64 DB"])
qed

lemma correlationOfPair64_swap:
  "map coefficient (correlationOfPair64 data (a, b)) =
   map coefficient (correlationOfPair64 data (b, a))"
proof (cases "length (numericValuesOf data a) = length (numericValuesOf data b)")
  case True
  then have "pearson64 (numericValuesOf data a) (numericValuesOf data b) =
             pearson64 (numericValuesOf data b) (numericValuesOf data a)"
    by (rule pearson64_commute)
  with True show ?thesis by (simp add: correlationOfPair64_def Let_def)
next
  case False
  then show ?thesis by (auto simp add: correlationOfPair64_def Let_def)
qed

lemma kept64:
  assumes "p \<in> set (findCorrelations64 data)"
  shows "\<not> isNaN (coefficient p) \<and> jlt (Fin 0.5) (jabs (coefficient p))"
proof -
  from assms obtain pair where "p \<in> set (correlationOfPair64 data pair)"
    by (auto simp add: findCorrelations64_def set_sortBy)
  then show ?thesis
    by (auto simp add: correlationOfPair64_def Let_def jgt_def split: if_splits)
qed

text \<open>
  Claim C8, amended. The computed coefficient of two equally long value sequences (the only
  ones the code computes it for) is the same in both orders, swapping the two columns of
  a pair leaves the coefficient of the entry it yields unchanged, and every entry kept by
  \<open>findCorrelations\<close> has a coefficient that is not \<open>NaN\<close> and whose absolute value
  exceeds 0.5. No upper bound is promised for the computed coefficient.
\<close>

theorem findCorrelations_symmetric_and_kept:
  "(length values1 = length values2 \<longrightarrow> pearson64 values1 values2 = pearson64 values2 values1) \<and>
   map coefficient (correlationOfPair64 data (a, b)) =
     map coefficient (correlationOfPair64 data (b, a)) \<and>
   (\<forall>p \<in> set (findCorrelations64 data).
      \<not> isNaN (coefficient p) \<and> jlt (Fin 0.5) (jabs (coefficient p)))"
  using pearson64_commute correlationOfPair64_swap kept64 by blast

lemma columnsOf_twoPoints: "columnsOf twoPoints = [''a'', ''b'']"
  by (simp add: twoPoints_def columnsOf_def objectKeys_def)

lemma numericColumnsOf_twoPoints: "numericColumnsOf twoPoints = [''a'', ''b'']"
  by (simp add: numericColumnsOf_def columnsOf_twoPoints calculateStats_def nv_twoPoints
      statsOfSorted_def Let_def sortNum_def sortBy_def jsub_def jgt_def)

lemma findCorrelations64_twoPoints:
  "findCorrelations64 twoPoints =
     [\<lparr>col1 = ''a'', col2 = ''b'', coefficient = Fin (4503599627370497 / 4503599627370496)\<rparr>]"
  by (simp add: findCorrelations64_def numericColumnsOf_twoPoints correlationOfPair64_def
      nv_twoPoints pearson64_1_4 jgt_def sortBy_def Let_def)

text \<open>
  Claim C8, as stated, fails: for the columns 1, 4 and 1, 4 the three sums are 4.5, the
  rounded square root of 4.5 is 2.1213203435596424, its rounded square is
  4.499999999999999, and the coefficient \<open>4.5 / 4.499999999999999\<close> rounds to
  \<open>1 + 2^-52 = 1.0000000000000002\<close>. It is not \<open>NaN\<close> and above 0.5, so the pair is kept
  with a coefficient above 1.
\<close>

theorem computed_coefficient_above_one_counterexample:
  "pearson64 [Fin 1, Fin 4] [Fin 1, Fin 4] = Fin (4503599627370497 / 4503599627370496) \<and>
   findCorrelations64 twoPoints =
     [\<lparr>col1 = ''a'', col2 = ''b'', coefficient = Fin (4503599627370497 / 4503599627370496)\<rparr>] \<and>
   jlt (Fin 1) (Fin (4503599627370497 / 4503599627370496)) \<and>
   \<not> jle (jabs (Fin (4503599627370497 / 4503599627370496))) (Fin 1)"
  by (simp add: pearson64_1_4 findCorrelations64_twoPoints)

theorem findCorrelations_symmetric_and_kept_witness:
  "pearson64 [Fin 1, Fin 4] [Fin 1, Fin 4] = pearson64 [Fin 1, Fin 4] [Fin 1, Fin 4] \<and>
   findCorrelations64 twoPoints =
     [\<lparr>col1 = ''a'', col2 = ''b'', coefficient = Fin (4503599627370497 / 4503599627370496)\<rparr>] \<and>
   \<not> isNaN (Fin (4503599627370497 / 4503599627370496)) \<and>
   jlt (Fin 0.5) (jabs (Fin (4503599627370497 / 4503599627370496)))"
  using findCorrelations_symmetric_and_kept [of "[Fin 1, Fin 4]" "[Fin 1, Fin 4]" twoPoints "''a''" "''b''"]
  by (simp add: findCorrelations64_twoPoints)

section \<open>Misaligned pairs and unguarded divisions\<close>

lemma parseFloat_digit:
  "parseFloat ''0'' = Fin 0" "parseFloat ''1'' = Fin 1" "parseFloat ''2'' = Fin 2"
  "parseFloat ''3'' = Fin 3" "parseFloat ''4'' = Fin 4"
  by (simp_all add: parseFloat_def parseUnsigned_def isWhite_def isDigit_def digitsVal_def
      digitVal_def parseExponent_def scale10_def)

lemma toNumber_misaligned:
  "map (toNumber ''a'') misaligned = [Fin 1, Fin 2, NaN]"
  "map (toNumber ''b'') misaligned = [NaN, Fin 2, Fin 4]"
  by (simp_all add: misaligned_def toNumber_def getCell_def parseFloat_digit parseFloat_blank)

lemma nv_misaligned:
  "numericValuesOf misaligned ''a'' = [Fin 1, Fin 2]"
  "numericValuesOf misaligned ''b'' = [Fin 2, Fin 4]"
  by (simp_all add: numericValuesOf_def toNumber_misaligned)

lemma sqrt_half_2: "sqrt (1 / 2) * sqrt 2 = 1"
proof -
  have "sqrt (1 / 2) * sqrt 2 = sqrt (1 / 2 * 2)"
    by (simp only: real_sqrt_mult)
  then show ?thesis by simp
qed

lemma pearson_misaligned: "pearson [Fin 1, Fin 2] [Fin 2, Fin 4] = Fin 1"
  using sqrt_half_2
  by (simp add: pearson_def sumNum_def pearsonStep_def Let_def jsub_def)

lemma columnsOf_misaligned: "columnsOf misaligned = [''a'', ''b'']"
  by (simp add: misaligned_def columnsOf_def objectKeys_def)

lemma numericColumnsOf_misaligned: "numericColumnsOf misaligned = [''a'', ''b'']"
  by (simp add: numericColumnsOf_def columnsOf_misaligned calculateStats_def nv_misaligned
      statsOfSorted_def Let_def length_sortNum)

lemma correlationOfPair_length_mismatch:
  "length (numericValuesOf data a) \<noteq> length (numericValuesOf data b) \<Longrightarrow>
     correlationOfPair data (a, b) = []"
  by (simp add: correlationOfPair_def Let_def)

text \<open>
  Claim C3 on the code: the two columns of \<open>misaligned\<close> are numeric at different rows
  (rows 0, 1 and rows 1, 2), but their filtered sequences are equally long, so the pair is
  not skipped: the value of \<open>a\<close> in row 0 is paired with the value of \<open>b\<close> in row 1, the
  value of \<open>a\<close> in row 1 with the value of \<open>b\<close> in row 2, and an entry with coefficient 1
  is returned.
\<close>

theorem findCorrelations_misaligned_rows:
  "map (\<lambda>item. isNaN (toNumber ''a'' item)) misaligned = [False, False, True] \<and>
   map (\<lambda>item. isNaN (toNumber ''b'' item)) misaligned = [True, False, False] \<and>
   numericValuesOf misaligned ''a'' = [Fin 1, Fin 2] \<and>
   numericValuesOf misaligned ''b'' = [Fin 2, Fin 4] \<and>
   findCorrelations misaligned = [\<lparr>col1 = ''a'', col2 = ''b'', coefficient = Fin 1\<rparr>]"
proof -
  have "map (\<lambda>item. isNaN (toNumber ''a'' item)) misaligned = map isNaN (map (toNumber ''a'') misaligned)"
    "map (\<lambda>item. isNaN (toNumber ''b'' item)) misaligned = map isNaN (map (toNumber ''b'') misaligned)"
    by simp_all
  then have "map (\<lambda>item. isNaN (toNumber ''a'' item)) misaligned = [False, False, True]"
    "map (\<lambda>item. isNaN (toNumber ''b'' item)) misaligned = [True, False, False]"
    by (simp_all only: toNumber_misaligned list.map isNaN.simps)
  moreover have "findCorrelations misaligned =
      [\<lparr>col1 = ''a'', col2 = ''b'', coefficient = Fin 1\<rparr>]"
    by (simp add: findCorrelations_def numericColumnsOf_misaligned correlationOfPair_def
      nv_misaligned pearson_misaligned jgt_def sortBy_def Let_def)
  ultimately show ?thesis by (simp only: nv_misaligned simp_thms)
qed

lemma nv_zeroFirst: "numericValuesOf zeroFirst ''x'' = [Fin 0, Fin 1, Fin 2, Fin 3, Fin 4]"
  by (simp add: zeroFirst_def numericValuesOf_def toNumber_def getCell_def parseFloat_digit)

lemma len_zeroFirst: "length zeroFirst = 5"
  by (simp add: zeroFirst_def)

lemma detectTrends_zeroFirst: "detectTrends zeroFirst ''x'' = Some (Upward (Fin 100) PInf)"
  by (simp add: detectTrends_def nv_zeroFirst len_zeroFirst jgt_def nthNum_def jsub_def)

lemma toFixed_100: "toFixed h 1 (Fin 100) = ''100.0''"
  by (simp add: toFixed_def Let_def digitChar_def)

lemma columnsOf_zeroFirst: "columnsOf zeroFirst = [''x'']"
  by (simp add: zeroFirst_def columnsOf_def objectKeys_def)

lemma numericStats_zeroFirst: "\<exists>s. numericStats zeroFirst = [(''x'', s)]"
  by (simp add: numericStats_def columnsOf_zeroFirst List.map_filter_simps calculateStats_def
      nv_zeroFirst)

lemma trendInsight_zeroFirst:
  "numericStats zeroFirst = [(''x'', s)] \<Longrightarrow>
   trendInsight h zeroFirst (numericStats zeroFirst) =
     [''Trend analysis of '' @ dq @ ''x'' @ dq @
      '' shows a clear upward trend with 100.0% of data points increasing. The overall growth rate is approximately Infinity%. To visualize this trend effectively, we recommend using a line chart with a trend line overlay.'']"
  by (simp add: trendInsight_def detectTrends_zeroFirst toFixed_def Let_def digitChar_def)

lemma nth_1_of_singleton_append: "length e = 1 \<Longrightarrow> take 5 (e @ [t] @ rest) ! 1 = t"
  by (cases e) simp_all

lemma nv_zeroOnly: "numericValuesOf zeroOnly ''x'' = [Fin 0]"
  by (simp add: zeroOnly_def numericValuesOf_def toNumber_def getCell_def parseFloat_digit)

lemma columnsOf_zeroOnly: "columnsOf zeroOnly = [''x'']"
  by (simp add: zeroOnly_def columnsOf_def objectKeys_def)

lemma numericStats_zeroOnly: "numericStats zeroOnly = [(''x'', statsOfSorted [Fin 0])]"
  by (simp add: numericStats_def columnsOf_zeroOnly List.map_filter_simps calculateStats_def
      nv_zeroOnly sortNum_def sortBy_def)

lemma stats_zero:
  "st_max (statsOfSorted [Fin 0]) = Fin 0"
  "st_mean (statsOfSorted [Fin 0]) = Fin 0"
  "st_stdDev (statsOfSorted [Fin 0]) = Fin 0"
  by (simp_all add: statsOfSorted_def Let_def sumNum_def nthNum_def pow2_def jsub_def)

lemma extremesInsight_zeroOnly:
  "extremesInsight sampleHost (numericStats zeroOnly) =
     [''The column '' @ dq @ ''x'' @ dq @
      '' has the highest value at #, with an average of 0.00. This is NaN% above the average and represents a z-score of NaN, indicating how many standard deviations it is from the mean.'']"
  by (simp add: numericStats_zeroOnly extremesInsight_def stats_zero jgt_def jsub_def
      toFixed_def Let_def digitChar_def sampleHost_def)

text \<open>
  Claim C5 on the code: when the first parsed value is 0 the growth rate divides by zero
  and the trend insight reads \<open>Infinity%\<close>; on a single row 0 the extremes insight
  divides 0 by the mean 0 and by the standard deviation 0 and reads \<open>NaN\<close> twice.
\<close>

theorem analyzeData_unguarded_divisions:
  "detectTrends zeroFirst ''x'' = Some (Upward (Fin 100) PInf) \<and>
   (\<exists>ss. analyzeData sampleHost zeroFirst = Inr ss \<and>
      ss ! 1 = ''Trend analysis of '' @ dq @ ''x'' @ dq @
        '' shows a clear upward trend with 100.0% of data points increasing. The overall growth rate is approximately Infinity%. To visualize this trend effectively, we recommend using a line chart with a trend line overlay.'') \<and>
   (\<exists>ss. analyzeData sampleHost zeroOnly = Inr ss \<and>
      ss ! 0 = ''The column '' @ dq @ ''x'' @ dq @
        '' has the highest value at #, with an average of 0.00. This is NaN% above the average and represents a z-score of NaN, indicating how many standard deviations it is from the mean.'')"
proof -
  obtain s where ns: "numericStats zeroFirst = [(''x'', s)]"
    using numericStats_zeroFirst by blast
  have e: "length (extremesInsight sampleHost (numericStats zeroFirst)) = 1"
    by (rule length_extremesInsight_numeric) (simp add: ns)
  have ne: "zeroFirst \<noteq> []" using len_zeroFirst by auto
  have a1: "analyzeData sampleHost zeroFirst = Inr (take 5 (allInsights sampleHost zeroFirst))"
    using ne by (simp add: analyzeData_def)
  have t1: "take 5 (allInsights sampleHost zeroFirst) ! 1 =
      ''Trend analysis of '' @ dq @ ''x'' @ dq @
        '' shows a clear upward trend with 100.0% of data points increasing. The overall growth rate is approximately Infinity%. To visualize this trend effectively, we recommend using a line chart with a trend line overlay.''"
    unfolding allInsights_def Let_def trendInsight_zeroFirst [OF ns]
    using nth_1_of_singleton_append [OF e] by simp
  have a2: "analyzeData sampleHost zeroOnly = Inr (take 5 (allInsights sampleHost zeroOnly))"
    by (simp add: analyzeData_def zeroOnly_def)
  have t2: "take 5 (allInsights sampleHost zeroOnly) ! 0 =
      ''The column '' @ dq @ ''x'' @ dq @
        '' has the highest value at #, with an average of 0.00. This is NaN% above the average and represents a z-score of NaN, indicating how many standard deviations it is from the mean.''"
    unfolding allInsights_def Let_def extremesInsight_zeroOnly by simp
  show ?thesis
    using detectTrends_zeroFirst a1 t1 a2 t2 by blast
qed

end
